theory Spec2Isabelle
  imports Complex_Main
begin

section \<open>The LSCP client engine (\<open>src/src/client.c\<close>)\<close>

text \<open>
  A shallow embedding of the LinuxSampler control protocol client: the string helpers,
  the transaction engine (\<open>lscp_client_call\<close>, \<open>lscp_client_query\<close>), the session
  registration functions, the typed info queries with their caches, the buffer fill query
  and one iteration of the UDP listener loop.

  Conventions of the model.
  \<^item> A C string is the list of its characters up to, not including, the terminating NUL.
    A buffer that is written in place is a list that may hold NUL characters, and a
    pointer into it is an index; a read at or beyond the end of the list reads NUL.
  \<^item> A pointer that may be NULL is an \<open>option\<close>.
  \<^item> C identifiers that begin with an underscore lose it (\<open>_lscp_strtok\<close> is \<open>lscp_strtok\<close>).
  \<^item> An \<open>int\<close> has 32 bits and a \<open>long\<close> 64, and their values are the integers in
    that range: \<open>atol\<close> and \<open>atoi\<close> return such values.
  \<^item> \<open>malloc\<close> and \<open>strdup\<close> always succeed; the receive buffers (\<open>LSCP_BUFSIZ\<close>
    characters, declared in a header that is not part of the sources) are large enough
    for what is received plus the terminating NUL.
  \<^item> What the C standard leaves undefined and the code can reach (a NULL or
    uninitialised pointer that is read, a write outside an array) is a \<open>fault\<close> value.
\<close>

subsection \<open>Characters and the C library\<close>

definition NUL :: char where
  "NUL = CHR 0x00"

definition isspace :: "char \<Rightarrow> bool" where
  "isspace c \<longleftrightarrow> c \<in> set [CHR '' '', CHR 0x09, CHR 0x0A, CHR 0x0B, CHR 0x0C, CHR 0x0D]"

definition isdigit :: "char \<Rightarrow> bool" where
  "isdigit c \<longleftrightarrow> 48 \<le> (of_char c :: nat) \<and> (of_char c :: nat) \<le> 57"

definition tolower :: "char \<Rightarrow> char" where
  "tolower c = (if 65 \<le> (of_char c :: nat) \<and> (of_char c :: nat) \<le> 90
                then char_of ((of_char c :: nat) + 32) else c)"

text \<open>The view of a buffer as a C string: the characters before the first NUL.\<close>

definition cstr :: "string \<Rightarrow> string" where
  "cstr b = takeWhile (\<lambda>c. c \<noteq> NUL) b"

definition cstr_at :: "string \<Rightarrow> nat \<Rightarrow> string" where
  "cstr_at b p = cstr (drop p b)"

definition peek :: "string \<Rightarrow> nat \<Rightarrow> char" where
  "peek b i = (if i < length b then b ! i else NUL)"

text \<open>\<open>strcasecmp(a, b) == 0\<close> and \<open>strncasecmp(a, b, n) == 0\<close> on C strings.\<close>

definition strcasecmp_eq :: "string \<Rightarrow> string \<Rightarrow> bool" where
  "strcasecmp_eq a b \<longleftrightarrow> map tolower a = map tolower b"

definition strncasecmp_eq :: "string \<Rightarrow> string \<Rightarrow> nat \<Rightarrow> bool" where
  "strncasecmp_eq a b n \<longleftrightarrow> map tolower (take n a) = map tolower (take n b)"

text \<open>
  \<open>atol\<close> and \<open>atoi\<close>. The digits are read by \<open>strtol\<close> in base 10: leading white
  space, an optional sign, then decimal digits up to the first character that is not one.
  \<open>strtol\<close> returns a \<open>long\<close> of 64 bits and saturates at its two ends; \<open>atol\<close> returns
  that value, and \<open>atoi\<close> converts it to an \<open>int\<close> of 32 bits, which keeps the low 32
  bits (two's complement).
\<close>

fun digits_val :: "int \<Rightarrow> string \<Rightarrow> int" where
  "digits_val acc [] = acc"
| "digits_val acc (c # cs) =
     (if isdigit c then digits_val (acc * 10 + (int (of_char c) - 48)) cs else acc)"

definition decimal_val :: "string \<Rightarrow> int" where
  "decimal_val s =
     (case dropWhile isspace s of
        [] \<Rightarrow> 0
      | c # cs \<Rightarrow>
          if c = CHR ''-'' then - digits_val 0 cs
          else if c = CHR ''+'' then digits_val 0 cs
          else digits_val 0 (c # cs))"

definition LONG_MAX :: int where
  "LONG_MAX = 2 ^ 63 - 1"

definition LONG_MIN :: int where
  "LONG_MIN = - (2 ^ 63)"

definition atol :: "string \<Rightarrow> int" where
  "atol s = max LONG_MIN (min LONG_MAX (decimal_val s))"

definition to_int32 :: "int \<Rightarrow> int" where
  "to_int32 v = (v + 2 ^ 31) mod 2 ^ 32 - 2 ^ 31"

definition atoi :: "string \<Rightarrow> int" where
  "atoi s = to_int32 (atol s)"

text \<open>\<open>sprintf\<close> with \<open>%d\<close>.\<close>

fun show_nat :: "nat \<Rightarrow> string" where
  "show_nat n =
     (if n < 10 then [''0123456789'' ! n]
      else show_nat (n div 10) @ [''0123456789'' ! (n mod 10)])"

declare show_nat.simps [simp del]

definition show_int :: "int \<Rightarrow> string" where
  "show_int i = (if i < 0 then CHR ''-'' # show_nat (nat (- i)) else show_nat (nat i))"

subsection \<open>Helper functions\<close>

text \<open>
  \<open>_lscp_strtok\<close>, the custom tokenizer. The argument is the C string at the place
  where scanning starts (\<open>pchBuffer\<close>, or \<open>*ppch\<close> when \<open>pchBuffer\<close> is NULL). The result
  is \<open>None\<close> for a NULL return, which leaves \<open>*ppch\<close> as it was, and otherwise the token
  together with the C string at the new \<open>*ppch\<close>.
\<close>

definition lscp_strtok :: "string \<Rightarrow> string \<Rightarrow> (string \<times> string) option" where
  "lscp_strtok pchBuffer pszSeps =
     (let pszToken = dropWhile (\<lambda>c. c \<in> set pszSeps) pchBuffer
      in if pszToken = [] then None
         else
           (case dropWhile (\<lambda>c. c \<notin> set pszSeps) pszToken of
              [] \<Rightarrow> Some (pszToken, [])
            | _ # pch \<Rightarrow>
                Some (takeWhile (\<lambda>c. c \<notin> set pszSeps) pszToken,
                      dropWhile (\<lambda>c. c \<in> set pszSeps) pch)))"

text \<open>
  The tokenizer writes a NUL over the separator that ends the token. This is what the
  string at the start of the buffer reads as afterwards.
\<close>

definition strtok_written :: "string \<Rightarrow> string \<Rightarrow> string" where
  "strtok_written pchBuffer pszSeps =
     (let pszToken = dropWhile (\<lambda>c. c \<in> set pszSeps) pchBuffer
      in takeWhile (\<lambda>c. c \<in> set pszSeps) pchBuffer @
         takeWhile (\<lambda>c. c \<notin> set pszSeps) pszToken)"

definition lscp_ltrim :: "string \<Rightarrow> string" where
  "lscp_ltrim psz = dropWhile isspace psz"

text \<open>
  \<open>_lscp_unquote\<close> works in place on a buffer \<open>b\<close>, with \<open>*ppsz\<close> an index into it.
  The result is the buffer that the returned pointer and the new \<open>*ppsz\<close> point into
  (the buffer itself after the write, or the fresh copy made by \<open>strdup\<close> when \<open>dup\<close>
  is set), the returned pointer \<open>psz\<close>, and the new \<open>*ppsz\<close>.
\<close>

definition skip_space :: "string \<Rightarrow> nat \<Rightarrow> nat" where
  "skip_space b i = i + length (takeWhile isspace (cstr_at b i))"

definition skip_to :: "string \<Rightarrow> nat \<Rightarrow> (char \<Rightarrow> bool) \<Rightarrow> nat" where
  "skip_to b i stop = i + length (takeWhile (\<lambda>c. \<not> stop c) (cstr_at b i))"

fun back_space :: "string \<Rightarrow> nat \<Rightarrow> nat \<Rightarrow> nat" where
  "back_space b lo 0 = 0"
| "back_space b lo (Suc i) =
     (if isspace (peek b i) \<and> Suc i > lo then back_space b lo i else Suc i)"

definition lscp_unquote :: "string \<Rightarrow> nat \<Rightarrow> bool \<Rightarrow> string \<times> nat \<times> nat" where
  "lscp_unquote b ppsz dup =
     (let psz = skip_space b ppsz
      in if peek b psz = CHR 0x22 \<or> peek b psz = CHR 0x27 then
           (let chQuote = peek b psz;
                psz1 = skip_space b (Suc psz);
                (b1, psz2) = (if dup then (cstr_at b psz1, 0) else (b, psz1));
                p = skip_to b1 psz2 (\<lambda>c. c = chQuote)
            in if peek b1 p \<noteq> NUL then
                 (let p1 = back_space b1 psz2 p
                  in (b1[p1 := NUL], psz2, Suc p1))
               else (b1, psz2, p))
         else if dup then (cstr_at b psz, 0, 0)
         else (b, psz, ppsz))"

text \<open>\<open>strpbrk\<close> from index \<open>p\<close> of a buffer: the index of the first character of the C
  string there that is in \<open>accept\<close>, or NULL.\<close>

definition strpbrk :: "string \<Rightarrow> nat \<Rightarrow> string \<Rightarrow> nat option" where
  "strpbrk b p accept =
     (let s = cstr_at b p; n = length (takeWhile (\<lambda>c. c \<notin> set accept) s)
      in if n < length s then Some (p + n) else None)"

lemma back_space_le: "back_space b lo i \<le> i"
  by (induction i) auto

lemma back_space_ge: "lo \<le> i \<Longrightarrow> lo \<le> back_space b lo i"
  by (induction i) auto

lemma skip_space_ge: "i \<le> skip_space b i"
  by (simp add: skip_space_def)

lemma skip_to_ge: "i \<le> skip_to b i stop"
  by (simp add: skip_to_def)

lemma lscp_unquote_inplace:
  assumes "lscp_unquote b p False = (b', psz, p')"
  shows "length b' = length b \<and> p \<le> p'"
proof -
  define q where "q = skip_space b (Suc (skip_space b p))"
  have pq: "p < q"
    using skip_space_ge [where i = p and b = b]
      skip_space_ge [where i = "Suc (skip_space b p)" and b = b]
    by (simp add: q_def)
  have A: "p \<le> skip_to b q stop" for stop
    using pq skip_to_ge [where i = q and b = b and stop = stop] by simp
  have B: "p \<le> Suc (back_space b q (skip_to b q stop))" for stop
    using pq back_space_ge [OF skip_to_ge [where i = q and b = b and stop = stop], where b = b]
    by simp
  show ?thesis
    using assms A B
    by (auto simp: lscp_unquote_def Let_def q_def [symmetric] split: if_splits)
qed

lemma strpbrk_Some:
  assumes "strpbrk b p accept = Some q"
  shows "p \<le> q \<and> q < length b \<and> accept \<noteq> []"
proof -
  let ?s = "cstr_at b p"
  let ?n = "length (takeWhile (\<lambda>c. c \<notin> set accept) ?s)"
  from assms have n: "?n < length ?s" and q: "q = p + ?n"
    by (auto simp: strpbrk_def Let_def split: if_splits)
  have "length ?s \<le> length b - p"
    using length_takeWhile_le [of "\<lambda>c. c \<noteq> NUL" "drop p b"]
    by (simp add: cstr_at_def cstr_def)
  moreover have "\<not> (?s ! ?n \<notin> set accept)"
    using n by (rule nth_length_takeWhile)
  ultimately show ?thesis
    using n q by auto
qed

text \<open>
  \<open>_lscp_szsplit_create\<close>: the loop over the separators, on the copy \<open>b\<close> that the first
  \<open>_lscp_unquote\<close> made. \<open>ppszSplit\<close> is the list of item pointers set so far (the first
  one is index 0, the start of the copy), \<open>iSize\<close> the allocated size of the array.
\<close>

function szsplit_loop ::
  "string \<Rightarrow> string \<Rightarrow> nat \<Rightarrow> nat list \<Rightarrow> nat \<Rightarrow> string \<times> nat list \<times> nat" where
  "szsplit_loop pszSeps b pszHead ppszSplit iSize =
     (case strpbrk b pszHead pszSeps of
        None \<Rightarrow> (b, ppszSplit, iSize)
      | Some pch \<Rightarrow>
          (case lscp_unquote (b[back_space b 0 pch := NUL]) (pch + length pszSeps) False of
             (b1, psz, pszHead1) \<Rightarrow>
               szsplit_loop pszSeps b1 pszHead1 (ppszSplit @ [psz])
                 (if Suc (length ppszSplit) \<ge> iSize then iSize + 4 else iSize)))"
  by pat_completeness auto
termination
proof (relation "measure (\<lambda>(pszSeps, b, pszHead, ppszSplit, iSize). length b - pszHead)")
  show "wf (measure (\<lambda>(pszSeps, b, pszHead, ppszSplit, iSize). length b - pszHead))"
    by simp
next
  fix pszSeps b :: string and pszHead iSize pch psz pszHead1 :: nat
    and ppszSplit :: "nat list" and b1 :: string and y :: "nat \<times> nat"
  assume found: "strpbrk b pszHead pszSeps = Some pch"
    and unq: "(b1, y) = lscp_unquote (b[back_space b 0 pch := NUL]) (pch + length pszSeps) False"
    and y: "(psz, pszHead1) = y"
  from found have "pszHead \<le> pch" "pch < length b" "pszSeps \<noteq> []"
    using strpbrk_Some by blast+
  moreover from unq y have "length b1 = length b \<and> pch + length pszSeps \<le> pszHead1"
    using lscp_unquote_inplace [of "b[back_space b 0 pch := NUL]" "pch + length pszSeps" b1 psz pszHead1]
    by simp
  moreover have "0 < length pszSeps"
    using \<open>pszSeps \<noteq> []\<close> by simp
  ultimately show "((pszSeps, b1, pszHead1, ppszSplit @ [psz],
      if iSize \<le> Suc (length ppszSplit) then iSize + 4 else iSize),
      pszSeps, b, pszHead, ppszSplit, iSize)
    \<in> measure (\<lambda>(pszSeps, b, pszHead, ppszSplit, iSize). length b - pszHead)"
    by (simp del: length_greater_0_conv) linarith
qed

declare szsplit_loop.simps [simp del]

text \<open>The result is the array itself: the items in order, then NULL up to its size.\<close>

definition lscp_szsplit_create :: "string \<Rightarrow> string \<Rightarrow> string option list" where
  "lscp_szsplit_create pszCsv pszSeps =
     (case lscp_unquote pszCsv 0 True of
        (b, psz, pszHead) \<Rightarrow>
          (case szsplit_loop pszSeps b pszHead [psz] 4 of
             (b1, ppszSplit, iSize) \<Rightarrow>
               map (\<lambda>p. Some (cstr_at b1 p)) ppszSplit @
               replicate (iSize - length ppszSplit) None))"

subsection \<open>Data\<close>

datatype lscp_status_t = LSCP_OK | LSCP_FAILED | LSCP_ERROR | LSCP_WARNING | LSCP_TIMEOUT

datatype lscp_usage_t = LSCP_USAGE_BYTES | LSCP_USAGE_PERCENTAGE

datatype fault = NullPointer | Uninitialised | OutOfBounds

text \<open>
  The cache structs. The fields \<open>description\<close> and \<open>version\<close> exist in two structs, so
  the fields of the driver and engine info carry the prefixes \<open>di_\<close> and \<open>ei_\<close>. The
  channel info is the one \<open>client.c\<close> fills (\<open>client.h\<close> in the sources declares an older
  layout). \<open>volume\<close> is a \<open>float\<close>, modelled as a real number.
\<close>

record lscp_driver_info_t =
  di_description :: "string option"
  di_version :: "string option"
  di_parameters :: "string option list option"

record lscp_engine_info_t =
  ei_description :: "string option"
  ei_version :: "string option"

record lscp_channel_info_t =
  engine_name :: "string option"
  audio_device :: int
  audio_channels :: int
  audio_routing :: "string option list option"
  instrument_file :: "string option"
  instrument_nr :: int
  midi_device :: int
  midi_port :: int
  midi_channel :: int
  volume :: real

text \<open>
  An entry of the buffer fill array. A field is \<open>None\<close> while nothing has been written
  to it since \<open>malloc\<close> returned the array.
\<close>

record lscp_buffer_fill_t =
  stream_id :: "int option"
  stream_usage :: "int option"

text \<open>
  Modelled from the spec: \<open>lscp_socket_agent_t\<close> is declared in \<open>lscp/socket.h\<close>, which is
  not part of the sources. The spec describes it as a socket handle with a boolean
  running flag; \<open>client.c\<close> reads \<open>sock\<close>, \<open>addr.sin_port\<close> and \<open>iState\<close>.
\<close>

record lscp_socket_agent_t =
  sock :: nat
  sin_port :: nat
  iState :: int

text \<open>
  The client descriptor. \<open>buffer_fill\<close> is a pointer to a heap array: the number of the
  allocation and the entries. The callback and its context are arguments of the listener
  (see below), and the mutex has no state in a sequential model.
\<close>

record lscp_client_t =
  tcp :: lscp_socket_agent_t
  udp :: lscp_socket_agent_t
  sessid :: "string option"
  audio_drivers :: "string option list option"
  midi_drivers :: "string option list option"
  engines :: "string option list option"
  audio_info :: lscp_driver_info_t
  midi_info :: lscp_driver_info_t
  engine_info :: lscp_engine_info_t
  channel_info :: lscp_channel_info_t
  pszResult :: "string option"
  iErrno :: int
  buffer_fill :: "(nat \<times> lscp_buffer_fill_t list) option"
  iStreamCount :: int
  iTimeout :: int

text \<open>
  What is outside the client. \<open>tcp_replies\<close> is what will happen to the coming
  transactions on the TCP socket, one event for each; when it is empty the server stays
  silent and \<open>select\<close> times out. \<open>tcp_sent\<close> and \<open>udp_sent\<close> record what was written to
  the sockets, \<open>heap_next\<close> numbers the arrays that \<open>malloc\<close> returns and \<open>heap_freed\<close>
  records the arrays given to \<open>free\<close>.
\<close>

datatype net_event =
    SendFails
  | SelectFails
  | SelectTimeout
  | Recv "string option"

record world =
  tcp_sent :: "string list"
  tcp_replies :: "net_event list"
  udp_sent :: "(nat \<times> string) list"
  heap_next :: nat
  heap_freed :: "nat list"

subsection \<open>Result record and cache members\<close>

definition lscp_client_set_result ::
  "lscp_client_t \<Rightarrow> string option \<Rightarrow> int \<Rightarrow> lscp_client_t" where
  "lscp_client_set_result pClient psz iErr =
     pClient\<lparr>pszResult := map_option lscp_ltrim psz, iErrno := iErr\<rparr>"

definition lscp_engine_info_init :: lscp_engine_info_t where
  "lscp_engine_info_init = \<lparr>ei_description = None, ei_version = None\<rparr>"

definition lscp_engine_info_reset :: "lscp_engine_info_t \<Rightarrow> lscp_engine_info_t" where
  "lscp_engine_info_reset pEngineInfo = lscp_engine_info_init"

definition lscp_driver_info_init :: lscp_driver_info_t where
  "lscp_driver_info_init = \<lparr>di_description = None, di_version = None, di_parameters = None\<rparr>"

definition lscp_driver_info_reset :: "lscp_driver_info_t \<Rightarrow> lscp_driver_info_t" where
  "lscp_driver_info_reset pDriverInfo = lscp_driver_info_init"

definition lscp_channel_info_init :: lscp_channel_info_t where
  "lscp_channel_info_init =
     \<lparr>engine_name = None, audio_device = 0, audio_channels = 0, audio_routing = None,
      instrument_file = None, instrument_nr = 0, midi_device = 0, midi_port = 0,
      midi_channel = 0, volume = 0\<rparr>"

definition lscp_channel_info_reset :: "lscp_channel_info_t \<Rightarrow> lscp_channel_info_t" where
  "lscp_channel_info_reset pChannelInfo = lscp_channel_info_init"

text \<open>The members that \<open>lscp_client_create\<close> sets once the sockets are up.\<close>

definition lscp_client_create :: "lscp_socket_agent_t \<Rightarrow> lscp_socket_agent_t \<Rightarrow> lscp_client_t" where
  "lscp_client_create tcp_agent udp_agent =
     \<lparr>tcp = tcp_agent, udp = udp_agent, sessid = None,
      audio_drivers = None, midi_drivers = None, engines = None,
      audio_info = lscp_driver_info_init, midi_info = lscp_driver_info_init,
      engine_info = lscp_engine_info_init, channel_info = lscp_channel_info_init,
      pszResult = None, iErrno = - 1, buffer_fill = None, iStreamCount = 0,
      iTimeout = 200\<rparr>"

subsection \<open>Transaction engine\<close>

text \<open>
  \<open>lscp_client_call\<close>: the request is the \<open>cchBuffer\<close> characters at \<open>pchBuffer\<close>; the
  result is the status and the characters received.
\<close>

definition lscp_client_call ::
  "lscp_client_t option \<Rightarrow> string \<Rightarrow> world \<Rightarrow> (lscp_status_t \<times> string) \<times> world" where
  "lscp_client_call pClient pchBuffer w =
     (case pClient of
        None \<Rightarrow> ((LSCP_FAILED, []), w)
      | Some c \<Rightarrow>
          if length pchBuffer < 1 then ((LSCP_FAILED, []), w)
          else
            (let ev = (case tcp_replies w of [] \<Rightarrow> SelectTimeout | e # es \<Rightarrow> e);
                 w1 = w\<lparr>tcp_replies := tl (tcp_replies w)\<rparr>;
                 w2 = w1\<lparr>tcp_sent := tcp_sent w1 @ [pchBuffer]\<rparr>
             in case ev of
                  SendFails \<Rightarrow> ((LSCP_FAILED, []), w1)
                | SelectFails \<Rightarrow> ((LSCP_FAILED, []), w2)
                | SelectTimeout \<Rightarrow> ((LSCP_TIMEOUT, []), w2)
                | Recv None \<Rightarrow> ((LSCP_FAILED, []), w2)
                | Recv (Some bs) \<Rightarrow>
                    if length bs < 1 then ((LSCP_FAILED, []), w2)
                    else ((LSCP_OK, bs), w2)))"

definition lscp_client_set_timeout ::
  "lscp_client_t option \<Rightarrow> int \<Rightarrow> lscp_status_t \<times> lscp_client_t option" where
  "lscp_client_set_timeout pClient iTime =
     (case pClient of
        None \<Rightarrow> (LSCP_FAILED, None)
      | Some c \<Rightarrow>
          if iTime < 0 then (LSCP_FAILED, Some c)
          else (LSCP_OK, Some (c\<lparr>iTimeout := iTime\<rparr>)))"

definition lscp_client_get_timeout :: "lscp_client_t option \<Rightarrow> int" where
  "lscp_client_get_timeout pClient =
     (case pClient of None \<Rightarrow> - 1 | Some c \<Rightarrow> iTimeout c)"

text \<open>The trailing CR and LF characters that \<open>lscp_client_query\<close> cuts off.\<close>

definition trim_crlf :: "string \<Rightarrow> string" where
  "trim_crlf achResult =
     rev (dropWhile (\<lambda>c. c = CHR 0x0A \<or> c = CHR 0x0D) (rev achResult))"

definition lscp_client_query ::
  "lscp_client_t option \<Rightarrow> string \<Rightarrow> world \<Rightarrow> lscp_status_t \<times> lscp_client_t option \<times> world" where
  "lscp_client_query pClient pszQuery w =
     (case pClient of
        None \<Rightarrow> (LSCP_FAILED, None, w)
      | Some c \<Rightarrow>
          (case lscp_client_call (Some c) pszQuery w of
             ((ret, received), w1) \<Rightarrow>
               (let pszSeps = '':[]'';
                    achResult = cstr (trim_crlf received);
                    (ret1, psz, iErr) =
                      (if ret = LSCP_OK then
                         (let ret2 =
                                (if strncasecmp_eq achResult ''ERR:'' 4 then LSCP_ERROR
                                 else if strncasecmp_eq achResult ''WRN:'' 4 then LSCP_WARNING
                                 else LSCP_OK)
                          in if ret2 = LSCP_OK then
                               (if strncasecmp_eq achResult ''OK['' 3 then
                                  (case lscp_strtok achResult pszSeps of
                                     None \<Rightarrow> (ret2, None, 0)
                                   | Some (pszToken, pch) \<Rightarrow>
                                       (ret2, map_option fst (lscp_strtok pch pszSeps), 0))
                                else (ret2, Some achResult, 0))
                             else
                               (case lscp_strtok achResult pszSeps of
                                  None \<Rightarrow> (ret2, None, - 1)
                                | Some (pszToken, pch) \<Rightarrow>
                                    (case lscp_strtok pch pszSeps of
                                       None \<Rightarrow> (ret2, None, - 1)
                                     | Some (pszToken1, pch1) \<Rightarrow>
                                         (ret2, map_option fst (lscp_strtok pch1 pszSeps),
                                          atoi pszToken1))))
                       else if ret = LSCP_TIMEOUT then
                         (ret, Some ''Timeout during receive operation'', - 1)
                       else (ret, None, - 1))
                in (ret1, Some (lscp_client_set_result c psz iErr), w1))))"

definition lscp_client_get_result :: "lscp_client_t option \<Rightarrow> string option" where
  "lscp_client_get_result pClient =
     (case pClient of None \<Rightarrow> None | Some c \<Rightarrow> pszResult c)"

definition lscp_client_get_errno :: "lscp_client_t option \<Rightarrow> int" where
  "lscp_client_get_errno pClient =
     (case pClient of None \<Rightarrow> - 1 | Some c \<Rightarrow> iErrno c)"

text \<open>
  \<open>lscp_client_join\<close> and \<open>lscp_client_destroy\<close>. The socket agent functions they call
  are in \<open>socket.c\<close>, which is not part of the sources; what remains of
  \<open>lscp_client_destroy\<close> here is that the descriptor and its buffer fill array are freed.
\<close>

definition lscp_client_join :: "lscp_client_t option \<Rightarrow> lscp_status_t" where
  "lscp_client_join pClient = (case pClient of None \<Rightarrow> LSCP_FAILED | Some c \<Rightarrow> LSCP_OK)"

definition lscp_client_destroy ::
  "lscp_client_t option \<Rightarrow> world \<Rightarrow> lscp_status_t \<times> lscp_client_t option \<times> world" where
  "lscp_client_destroy pClient w =
     (case pClient of
        None \<Rightarrow> (LSCP_FAILED, None, w)
      | Some c \<Rightarrow>
          (LSCP_OK, None,
           (case buffer_fill c of
              None \<Rightarrow> w
            | Some (a, arr) \<Rightarrow> w\<lparr>heap_freed := heap_freed w @ [a]\<rparr>)))"

subsection \<open>Registration\<close>

text \<open>
  From here on a function can reach undefined behaviour, so its result is a sum: the
  fault, or the returned value with the descriptor and the world after the call.
\<close>

type_synonym 'a outcome = "fault + ('a \<times> lscp_client_t option \<times> world)"

definition CRLF :: string where
  "CRLF = [CHR 0x0D, CHR 0x0A]"

definition lscp_client_subscribe :: "lscp_client_t option \<Rightarrow> world \<Rightarrow> lscp_status_t outcome" where
  "lscp_client_subscribe pClient w =
     (case pClient of
        None \<Rightarrow> Inr (LSCP_FAILED, None, w)
      | Some c \<Rightarrow>
          if sessid c \<noteq> None then Inr (LSCP_FAILED, Some c, w)
          else
            (case lscp_client_query (Some c)
                    (''SUBSCRIBE NOTIFICATION '' @ show_nat (sin_port (udp c)) @ CRLF) w of
               (ret, pClient1, w1) \<Rightarrow>
                 if ret = LSCP_OK then
                   (case lscp_client_get_result pClient1 of
                      None \<Rightarrow> Inl Uninitialised
                    | Some res \<Rightarrow>
                        (let pszSeps = ''[]'';
                             pClient2 = map_option
                               (\<lambda>c1. c1\<lparr>pszResult := Some (strtok_written res pszSeps)\<rparr>) pClient1
                         in case lscp_strtok res pszSeps of
                              None \<Rightarrow> Inr (ret, pClient2, w1)
                            | Some (pszToken, pch) \<Rightarrow>
                                if strcasecmp_eq pszToken ''OK'' then
                                  (case lscp_strtok pch pszSeps of
                                     None \<Rightarrow> Inr (ret, pClient2, w1)
                                   | Some (pszToken1, pch1) \<Rightarrow>
                                       Inr (ret,
                                            map_option (\<lambda>c2. c2\<lparr>sessid := Some pszToken1\<rparr>) pClient2,
                                            w1))
                                else Inr (ret, pClient2, w1)))
                 else Inr (ret, pClient1, w1)))"

definition lscp_client_unsubscribe :: "lscp_client_t option \<Rightarrow> world \<Rightarrow> lscp_status_t outcome" where
  "lscp_client_unsubscribe pClient w =
     (case pClient of
        None \<Rightarrow> Inr (LSCP_FAILED, None, w)
      | Some c \<Rightarrow>
          (case sessid c of
             None \<Rightarrow> Inr (LSCP_FAILED, Some c, w)
           | Some sid \<Rightarrow>
               (case lscp_client_query (Some c)
                       (''UNSUBSCRIBE NOTIFICATION '' @ sid @ [CHR 0x0A, CHR 0x0A]) w of
                  (ret, pClient1, w1) \<Rightarrow>
                    if ret = LSCP_OK then
                      Inr (ret, map_option (\<lambda>c1. c1\<lparr>sessid := None\<rparr>) pClient1, w1)
                    else Inr (ret, pClient1, w1))))"

subsection \<open>Lists of drivers and engines\<close>

text \<open>
  \<open>lscp_get_available_audio_drivers\<close>, \<open>lscp_get_available_midi_drivers\<close> and
  \<open>lscp_get_available_engines\<close>. After the query each of them reads its member of
  \<open>*pClient\<close> for the return value, with no test of \<open>pClient\<close>: on a NULL descriptor,
  for which the query returns \<open>LSCP_FAILED\<close>, this is a read through NULL. When the query
  returns \<open>LSCP_OK\<close> the old list is destroyed and the result text is split at commas;
  \<open>_lscp_szsplit_create\<close> reads its argument without a test, so a NULL result text is
  a read through NULL as well.
\<close>

definition lscp_get_available_audio_drivers ::
  "lscp_client_t option \<Rightarrow> world \<Rightarrow> string option list option outcome" where
  "lscp_get_available_audio_drivers pClient w =
     (let pszSeps = '','' in
      case lscp_client_query pClient (''GET AVAILABLE_AUDIO_OUTPUT_DRIVERS'' @ CRLF) w of
        (ret, pClient1, w1) \<Rightarrow>
          if ret = LSCP_OK then
            (case pClient1 of
               None \<Rightarrow> Inl NullPointer
             | Some c \<Rightarrow>
                 (case lscp_client_get_result pClient1 of
                    None \<Rightarrow> Inl NullPointer
                  | Some res \<Rightarrow>
                      (let c1 = c\<lparr>audio_drivers := Some (lscp_szsplit_create res pszSeps)\<rparr>
                       in Inr (audio_drivers c1, Some c1, w1))))
          else
            (case pClient1 of
               None \<Rightarrow> Inl NullPointer
             | Some c \<Rightarrow> Inr (audio_drivers c, Some c, w1)))"

definition lscp_get_available_midi_drivers ::
  "lscp_client_t option \<Rightarrow> world \<Rightarrow> string option list option outcome" where
  "lscp_get_available_midi_drivers pClient w =
     (let pszSeps = '','' in
      case lscp_client_query pClient (''GET AVAILABLE_MIDI_INPUT_DRIVERS'' @ CRLF) w of
        (ret, pClient1, w1) \<Rightarrow>
          if ret = LSCP_OK then
            (case pClient1 of
               None \<Rightarrow> Inl NullPointer
             | Some c \<Rightarrow>
                 (case lscp_client_get_result pClient1 of
                    None \<Rightarrow> Inl NullPointer
                  | Some res \<Rightarrow>
                      (let c1 = c\<lparr>midi_drivers := Some (lscp_szsplit_create res pszSeps)\<rparr>
                       in Inr (midi_drivers c1, Some c1, w1))))
          else
            (case pClient1 of
               None \<Rightarrow> Inl NullPointer
             | Some c \<Rightarrow> Inr (midi_drivers c, Some c, w1)))"

definition lscp_get_available_engines ::
  "lscp_client_t option \<Rightarrow> world \<Rightarrow> string option list option outcome" where
  "lscp_get_available_engines pClient w =
     (let pszSeps = '','' in
      case lscp_client_query pClient (''GET AVAILABLE_ENGINES'' @ CRLF) w of
        (ret, pClient1, w1) \<Rightarrow>
          if ret = LSCP_OK then
            (case pClient1 of
               None \<Rightarrow> Inl NullPointer
             | Some c \<Rightarrow>
                 (case lscp_client_get_result pClient1 of
                    None \<Rightarrow> Inl NullPointer
                  | Some res \<Rightarrow>
                      (let c1 = c\<lparr>engines := Some (lscp_szsplit_create res pszSeps)\<rparr>
                       in Inr (engines c1, Some c1, w1))))
          else
            (case pClient1 of
               None \<Rightarrow> Inl NullPointer
             | Some c \<Rightarrow> Inr (engines c, Some c, w1)))"

subsection \<open>Typed info queries\<close>

text \<open>The string that \<open>_lscp_unquote(&pszToken, 1)\<close> returns for the token \<open>pszToken\<close>.\<close>

definition unquote_dup :: "string \<Rightarrow> string" where
  "unquote_dup pszToken = (case lscp_unquote pszToken 0 True of (b, psz, ppsz) \<Rightarrow> cstr_at b psz)"

lemma lscp_strtok_shorter:
  assumes "lscp_strtok s seps = Some (t, r)"
  shows "length r < length s"
proof -
  let ?in = "\<lambda>c. c \<in> set seps"
  let ?out = "\<lambda>c. c \<notin> set seps"
  let ?tok = "dropWhile ?in s"
  have a: "length ?tok \<le> length s"
    by (rule length_dropWhile_le)
  from assms have ne: "?tok \<noteq> []"
    by (auto simp: lscp_strtok_def Let_def split: if_splits)
  then have pos: "0 < length ?tok"
    by (simp del: dropWhile_eq_Nil_conv)
  from assms ne have eq:
    "(case dropWhile ?out ?tok of [] \<Rightarrow> Some (?tok, [])
      | x # pch \<Rightarrow> Some (takeWhile ?out ?tok, dropWhile ?in pch)) = Some (t, r)"
    unfolding lscp_strtok_def Let_def by (simp only: if_False)
  show ?thesis
  proof (cases "dropWhile ?out ?tok")
    case Nil
    from eq have "r = []"
      unfolding Nil by simp
    with pos a show ?thesis
      by (simp del: dropWhile_eq_Nil_conv length_greater_0_conv)
  next
    case (Cons x pch)
    from eq have r: "r = dropWhile ?in pch"
      unfolding Cons by simp
    have "length (dropWhile ?in pch) \<le> length pch"
      by (rule length_dropWhile_le)
    moreover have "length (dropWhile ?out ?tok) \<le> length ?tok"
      by (rule length_dropWhile_le)
    then have "Suc (length pch) \<le> length ?tok"
      unfolding Cons by simp
    ultimately show ?thesis
      unfolding r using a by linarith
  qed
qed

text \<open>One pass of the body of the \<open>while (pszToken)\<close> loop, up to the last \<open>_lscp_strtok\<close>.\<close>

definition driver_info_field ::
  "string \<Rightarrow> string \<Rightarrow> lscp_driver_info_t \<Rightarrow> lscp_driver_info_t \<times> string" where
  "driver_info_field pszToken pch info =
     (let pszCrlf = CRLF
      in if strcasecmp_eq pszToken ''DESCRIPTION'' then
           (case lscp_strtok pch pszCrlf of
              None \<Rightarrow> (info, pch)
            | Some (t, pch1) \<Rightarrow> (info\<lparr>di_description := Some (unquote_dup t)\<rparr>, pch1))
         else if strcasecmp_eq pszToken ''VERSION'' then
           (case lscp_strtok pch pszCrlf of
              None \<Rightarrow> (info, pch)
            | Some (t, pch1) \<Rightarrow> (info\<lparr>di_version := Some (unquote_dup t)\<rparr>, pch1))
         else if strcasecmp_eq pszToken ''PARAMETERS'' then
           (case lscp_strtok pch pszCrlf of
              None \<Rightarrow> (info, pch)
            | Some (t, pch1) \<Rightarrow>
                (info\<lparr>di_parameters := Some (lscp_szsplit_create t '','')\<rparr>, pch1))
         else (info, pch))"

lemma driver_info_field_le:
  "driver_info_field t pch info = (info1, pch1) \<Longrightarrow> length pch1 \<le> length pch"
  by (auto simp: driver_info_field_def Let_def split: if_splits option.splits
      dest: lscp_strtok_shorter)

function driver_info_loop ::
  "string \<Rightarrow> string \<Rightarrow> lscp_driver_info_t \<Rightarrow> lscp_driver_info_t" where
  "driver_info_loop pszToken pch info =
     (case driver_info_field pszToken pch info of
        (info1, pch1) \<Rightarrow>
          (case lscp_strtok pch1 '':'' of
             None \<Rightarrow> info1
           | Some (pszToken1, pch2) \<Rightarrow> driver_info_loop pszToken1 pch2 info1))"
  by pat_completeness auto
termination
  by (relation "measure (\<lambda>(pszToken, pch, info). length pch)")
     (auto dest!: lscp_strtok_shorter driver_info_field_le [OF sym])

declare driver_info_loop.simps [simp del]

text \<open>\<open>pDriverInfo\<close> points to one of two members of the descriptor.\<close>

datatype driver_info_member = Audio_info | Midi_info

definition lscp_driver_info_query ::
  "lscp_client_t option \<Rightarrow> driver_info_member \<Rightarrow> string \<Rightarrow> world \<Rightarrow>
   driver_info_member option outcome" where
  "lscp_driver_info_query pClient pDriverInfo pszQuery w =
     (case lscp_client_query pClient pszQuery w of
        (ret, pClient1, w1) \<Rightarrow>
          if ret \<noteq> LSCP_OK then Inr (None, pClient1, w1)
          else
            (case pClient1 of
               None \<Rightarrow> Inl NullPointer
             | Some c \<Rightarrow>
                 (case pszResult c of
                    None \<Rightarrow> Inl Uninitialised
                  | Some res \<Rightarrow>
                      (let info = (case lscp_strtok res '':'' of
                                     None \<Rightarrow> lscp_driver_info_init
                                   | Some (pszToken, pch) \<Rightarrow>
                                       driver_info_loop pszToken pch lscp_driver_info_init);
                           c1 = c\<lparr>pszResult := Some (strtok_written res '':'')\<rparr>
                       in Inr (Some pDriverInfo,
                               Some (case pDriverInfo of
                                       Audio_info \<Rightarrow> c1\<lparr>audio_info := info\<rparr>
                                     | Midi_info \<Rightarrow> c1\<lparr>midi_info := info\<rparr>),
                               w1)))))"

definition lscp_get_audio_driver_info ::
  "lscp_client_t option \<Rightarrow> string option \<Rightarrow> world \<Rightarrow> driver_info_member option outcome" where
  "lscp_get_audio_driver_info pClient pszAudioDriver w =
     (case pszAudioDriver of
        None \<Rightarrow> Inr (None, pClient, w)
      | Some name \<Rightarrow>
          lscp_driver_info_query pClient Audio_info
            (''GET AUDIO_OUTPUT_DRIVER INFO '' @ name @ CRLF) w)"

definition lscp_get_midi_driver_info ::
  "lscp_client_t option \<Rightarrow> string option \<Rightarrow> world \<Rightarrow> driver_info_member option outcome" where
  "lscp_get_midi_driver_info pClient pszMidiDriver w =
     (case pszMidiDriver of
        None \<Rightarrow> Inr (None, pClient, w)
      | Some name \<Rightarrow>
          lscp_driver_info_query pClient Midi_info
            (''GET MIDI_INPUT_DRIVER INFO '' @ name @ CRLF) w)"

definition engine_info_field ::
  "string \<Rightarrow> string \<Rightarrow> lscp_engine_info_t \<Rightarrow> lscp_engine_info_t \<times> string" where
  "engine_info_field pszToken pch info =
     (let pszCrlf = CRLF
      in if strcasecmp_eq pszToken ''DESCRIPTION'' then
           (case lscp_strtok pch pszCrlf of
              None \<Rightarrow> (info, pch)
            | Some (t, pch1) \<Rightarrow> (info\<lparr>ei_description := Some (unquote_dup t)\<rparr>, pch1))
         else if strcasecmp_eq pszToken ''VERSION'' then
           (case lscp_strtok pch pszCrlf of
              None \<Rightarrow> (info, pch)
            | Some (t, pch1) \<Rightarrow> (info\<lparr>ei_version := Some (unquote_dup t)\<rparr>, pch1))
         else (info, pch))"

lemma engine_info_field_le:
  "engine_info_field t pch info = (info1, pch1) \<Longrightarrow> length pch1 \<le> length pch"
  by (auto simp: engine_info_field_def Let_def split: if_splits option.splits
      dest: lscp_strtok_shorter)

function engine_info_loop ::
  "string \<Rightarrow> string \<Rightarrow> lscp_engine_info_t \<Rightarrow> lscp_engine_info_t" where
  "engine_info_loop pszToken pch info =
     (case engine_info_field pszToken pch info of
        (info1, pch1) \<Rightarrow>
          (case lscp_strtok pch1 '':'' of
             None \<Rightarrow> info1
           | Some (pszToken1, pch2) \<Rightarrow> engine_info_loop pszToken1 pch2 info1))"
  by pat_completeness auto
termination
  by (relation "measure (\<lambda>(pszToken, pch, info). length pch)")
     (auto dest!: lscp_strtok_shorter engine_info_field_le [OF sym])

declare engine_info_loop.simps [simp del]

text \<open>
  The returned pointer is \<open>&(pClient->engine_info)\<close> or NULL; \<open>True\<close> stands for the
  pointer to the cache member.
\<close>

definition lscp_get_engine_info ::
  "lscp_client_t option \<Rightarrow> string option \<Rightarrow> world \<Rightarrow> bool outcome" where
  "lscp_get_engine_info pClient pszEngineName w =
     (case pszEngineName of
        None \<Rightarrow> Inr (False, pClient, w)
      | Some name \<Rightarrow>
          (case lscp_client_query pClient (''GET ENGINE INFO '' @ name @ CRLF) w of
             (ret, pClient1, w1) \<Rightarrow>
               if ret = LSCP_OK then
                 (case pClient1 of
                    None \<Rightarrow> Inl NullPointer
                  | Some c \<Rightarrow>
                      (case pszResult c of
                         None \<Rightarrow> Inl Uninitialised
                       | Some res \<Rightarrow>
                           (let info = (case lscp_strtok res '':'' of
                                          None \<Rightarrow> lscp_engine_info_reset (engine_info c)
                                        | Some (pszToken, pch) \<Rightarrow>
                                            engine_info_loop pszToken pch
                                              (lscp_engine_info_reset (engine_info c)))
                            in Inr (True,
                                    Some (c\<lparr>pszResult := Some (strtok_written res '':''),
                                            engine_info := info\<rparr>),
                                    w1))))
               else Inr (False, pClient1, w1)))"

text \<open>
  \<open>atof\<close> followed by the conversion to \<open>float\<close> is an argument of the channel info
  functions: floating point numbers are not modelled.
\<close>

definition channel_info_field ::
  "(string \<Rightarrow> real) \<Rightarrow> string \<Rightarrow> string \<Rightarrow> lscp_channel_info_t \<Rightarrow>
   lscp_channel_info_t \<times> string" where
  "channel_info_field atof pszToken pch info =
     (let pszCrlf = CRLF
      in if strcasecmp_eq pszToken ''ENGINE_NAME'' then
           (case lscp_strtok pch pszCrlf of
              None \<Rightarrow> (info, pch)
            | Some (t, pch1) \<Rightarrow> (info\<lparr>engine_name := Some (unquote_dup t)\<rparr>, pch1))
         else if strcasecmp_eq pszToken ''AUDIO_OUTPUT_DEVICE'' then
           (case lscp_strtok pch pszCrlf of
              None \<Rightarrow> (info, pch)
            | Some (t, pch1) \<Rightarrow> (info\<lparr>audio_device := atoi (lscp_ltrim t)\<rparr>, pch1))
         else if strcasecmp_eq pszToken ''AUDIO_OUTPUT_CHANNELS'' then
           (case lscp_strtok pch pszCrlf of
              None \<Rightarrow> (info, pch)
            | Some (t, pch1) \<Rightarrow> (info\<lparr>audio_channels := atoi (lscp_ltrim t)\<rparr>, pch1))
         else if strcasecmp_eq pszToken ''AUDIO_OUTPUT_ROUTING'' then
           (case lscp_strtok pch pszCrlf of
              None \<Rightarrow> (info, pch)
            | Some (t, pch1) \<Rightarrow>
                (info\<lparr>audio_routing := Some (lscp_szsplit_create t '','')\<rparr>, pch1))
         else if strcasecmp_eq pszToken ''INSTRUMENT_FILE'' then
           (case lscp_strtok pch pszCrlf of
              None \<Rightarrow> (info, pch)
            | Some (t, pch1) \<Rightarrow> (info\<lparr>instrument_file := Some (unquote_dup t)\<rparr>, pch1))
         else if strcasecmp_eq pszToken ''INSTRUMENT_NR'' then
           (case lscp_strtok pch pszCrlf of
              None \<Rightarrow> (info, pch)
            | Some (t, pch1) \<Rightarrow> (info\<lparr>instrument_nr := atoi (lscp_ltrim t)\<rparr>, pch1))
         else if strcasecmp_eq pszToken ''MIDI_INPUT_DEVICE'' then
           (case lscp_strtok pch pszCrlf of
              None \<Rightarrow> (info, pch)
            | Some (t, pch1) \<Rightarrow> (info\<lparr>midi_device := atoi (lscp_ltrim t)\<rparr>, pch1))
         else if strcasecmp_eq pszToken ''MIDI_INPUT_PORT'' then
           (case lscp_strtok pch pszCrlf of
              None \<Rightarrow> (info, pch)
            | Some (t, pch1) \<Rightarrow> (info\<lparr>midi_port := atoi (lscp_ltrim t)\<rparr>, pch1))
         else if strcasecmp_eq pszToken ''MIDI_INPUT_CHANNEL'' then
           (case lscp_strtok pch pszCrlf of
              None \<Rightarrow> (info, pch)
            | Some (t, pch1) \<Rightarrow> (info\<lparr>midi_channel := atoi (lscp_ltrim t)\<rparr>, pch1))
         else if strcasecmp_eq pszToken ''VOLUME'' then
           (case lscp_strtok pch pszCrlf of
              None \<Rightarrow> (info, pch)
            | Some (t, pch1) \<Rightarrow> (info\<lparr>volume := atof (lscp_ltrim t)\<rparr>, pch1))
         else (info, pch))"

lemma channel_info_field_le:
  "channel_info_field atof t pch info = (info1, pch1) \<Longrightarrow> length pch1 \<le> length pch"
  unfolding channel_info_field_def Let_def
  by (simp split: if_splits option.splits prod.splits)
     (auto dest: lscp_strtok_shorter)

function channel_info_loop ::
  "(string \<Rightarrow> real) \<Rightarrow> string \<Rightarrow> string \<Rightarrow> lscp_channel_info_t \<Rightarrow> lscp_channel_info_t" where
  "channel_info_loop atof pszToken pch info =
     (case channel_info_field atof pszToken pch info of
        (info1, pch1) \<Rightarrow>
          (case lscp_strtok pch1 '':'' of
             None \<Rightarrow> info1
           | Some (pszToken1, pch2) \<Rightarrow> channel_info_loop atof pszToken1 pch2 info1))"
  by pat_completeness auto
termination
  by (relation "measure (\<lambda>(atof, pszToken, pch, info). length pch)")
     (auto dest!: lscp_strtok_shorter channel_info_field_le [OF sym])

declare channel_info_loop.simps [simp del]

definition lscp_get_channel_info ::
  "(string \<Rightarrow> real) \<Rightarrow> lscp_client_t option \<Rightarrow> int \<Rightarrow> world \<Rightarrow> bool outcome" where
  "lscp_get_channel_info atof pClient iSamplerChannel w =
     (if iSamplerChannel < 0 then Inr (False, pClient, w)
      else
        (case lscp_client_query pClient
                (''GET CHANNEL INFO '' @ show_int iSamplerChannel @ CRLF) w of
           (ret, pClient1, w1) \<Rightarrow>
             if ret = LSCP_OK then
               (case pClient1 of
                  None \<Rightarrow> Inl NullPointer
                | Some c \<Rightarrow>
                    (case pszResult c of
                       None \<Rightarrow> Inl Uninitialised
                     | Some res \<Rightarrow>
                         (let info = (case lscp_strtok res '':'' of
                                        None \<Rightarrow> lscp_channel_info_reset (channel_info c)
                                      | Some (pszToken, pch) \<Rightarrow>
                                          channel_info_loop atof pszToken pch
                                            (lscp_channel_info_reset (channel_info c)))
                          in Inr (True,
                                  Some (c\<lparr>pszResult := Some (strtok_written res '':''),
                                          channel_info := info\<rparr>),
                                  w1))))
             else Inr (False, pClient1, w1)))"

subsection \<open>Stream count and buffer fill\<close>

definition lscp_get_channel_stream_count ::
  "lscp_client_t option \<Rightarrow> int \<Rightarrow> world \<Rightarrow> int outcome" where
  "lscp_get_channel_stream_count pClient iSamplerChannel w =
     (if iSamplerChannel < 0 then Inr (- 1, pClient, w)
      else
        (case lscp_client_query pClient
                (''GET CHANNEL STREAM_COUNT '' @ show_int iSamplerChannel @ CRLF) w of
           (ret, pClient1, w1) \<Rightarrow>
             if ret = LSCP_OK then
               (case lscp_client_get_result pClient1 of
                  None \<Rightarrow> Inl NullPointer
                | Some res \<Rightarrow> Inr (atoi res, pClient1, w1))
             else Inr (- 1, pClient1, w1)))"

text \<open>
  A write to \<open>pBufferFill[iStream]\<close>, checked against the bounds of the array.
  \<open>stream_id\<close> is an \<open>unsigned int\<close> and \<open>stream_usage\<close> an \<open>unsigned long\<close>: the value of
  \<open>atol\<close> is reduced modulo \<open>2 ^ 32\<close> and \<open>2 ^ 64\<close>.
\<close>

definition array_write ::
  "'a list \<Rightarrow> int \<Rightarrow> ('a \<Rightarrow> 'a) \<Rightarrow> fault + 'a list" where
  "array_write arr i f =
     (if 0 \<le> i \<and> nat i < length arr then Inr (arr[nat i := f (arr ! nat i)])
      else Inl OutOfBounds)"

text \<open>
  The parsing loop of \<open>lscp_get_channel_buffer_fill\<close>: \<open>pszToken\<close> is the current token,
  or NULL. The result is the array and \<open>iStream\<close> when the loop is left.
\<close>

function buffer_fill_loop ::
  "string option \<Rightarrow> string \<Rightarrow> int \<Rightarrow> int \<Rightarrow> lscp_buffer_fill_t list \<Rightarrow>
   fault + (lscp_buffer_fill_t list \<times> int)" where
  "buffer_fill_loop pszToken pch iStream iCount pBufferFill =
     (case pszToken of
        None \<Rightarrow> Inr (pBufferFill, iStream)
      | Some tok \<Rightarrow>
          if \<not> iStream < iCount then Inr (pBufferFill, iStream)
          else if tok \<noteq> [] then
            (case array_write pBufferFill iStream
                    (\<lambda>e. e\<lparr>stream_id := Some (atol tok mod 2 ^ 32)\<rparr>) of
               Inl f \<Rightarrow> Inl f
             | Inr arr1 \<Rightarrow>
                 (case lscp_strtok pch ''[]%,'' of
                    None \<Rightarrow> Inr (arr1, iStream)
                  | Some (tok1, pch1) \<Rightarrow>
                      (case array_write arr1 iStream
                              (\<lambda>e. e\<lparr>stream_usage := Some (atol tok1 mod 2 ^ 64)\<rparr>) of
                         Inl f \<Rightarrow> Inl f
                       | Inr arr2 \<Rightarrow>
                           (case lscp_strtok pch1 ''[]%,'' of
                              None \<Rightarrow> buffer_fill_loop None pch1 (iStream + 1) iCount arr2
                            | Some (tok2, pch2) \<Rightarrow>
                                buffer_fill_loop (Some tok2) pch2 (iStream + 1) iCount arr2))))
          else
            (case lscp_strtok pch ''[]%,'' of
               None \<Rightarrow> buffer_fill_loop None pch iStream iCount pBufferFill
             | Some (tok1, pch1) \<Rightarrow>
                 buffer_fill_loop (Some tok1) pch1 iStream iCount pBufferFill))"
  by pat_completeness auto
termination
  by (relation "measure (\<lambda>(pszToken, pch, iStream, iCount, pBufferFill).
        length pch + (case pszToken of None \<Rightarrow> 0 | Some t \<Rightarrow> 1))")
     (auto dest!: lscp_strtok_shorter)

declare buffer_fill_loop.simps [simp del]

text \<open>
  \<open>lscp_get_channel_buffer_fill\<close> in three steps. First the local \<open>iStreamCount\<close> is
  resolved: it is the cached count, or the answer to a stream count query when the
  cached count is below 1.
\<close>

definition resolve_stream_count :: "lscp_client_t \<Rightarrow> int \<Rightarrow> world \<Rightarrow> int outcome" where
  "resolve_stream_count c iSamplerChannel w =
     (if iStreamCount c < 1 then lscp_get_channel_stream_count (Some c) iSamplerChannel w
      else Inr (iStreamCount c, Some c, w))"

text \<open>
  Then the array is freed and allocated anew when the resolved count \<open>iCount\<close> is not
  the cached one.
\<close>

definition buffer_fill_realloc :: "lscp_client_t \<Rightarrow> int \<Rightarrow> world \<Rightarrow> lscp_client_t \<times> world" where
  "buffer_fill_realloc c iCount w =
     (if iStreamCount c \<noteq> iCount then
        (c\<lparr>buffer_fill :=
             Some (heap_next w,
                   replicate (nat iCount) \<lparr>stream_id = None, stream_usage = None\<rparr>),
           iStreamCount := iCount\<rparr>,
         w\<lparr>heap_next := Suc (heap_next w),
           heap_freed :=
             (case buffer_fill c of
                None \<Rightarrow> heap_freed w
              | Some (a, arr) \<Rightarrow> heap_freed w @ [a])\<rparr>)
      else (c, w))"

text \<open>
  Last the fill query is sent and its result parsed into the array. The returned pointer
  is the number of the array, or NULL.
\<close>

definition buffer_fill_query ::
  "lscp_client_t \<Rightarrow> lscp_usage_t \<Rightarrow> int \<Rightarrow> world \<Rightarrow> nat option outcome" where
  "buffer_fill_query c usage_type iSamplerChannel w =
     (let pszUsageType = (if usage_type = LSCP_USAGE_BYTES then ''BYTES'' else ''PERCENTAGE'');
          pszSeps = ''[]%,''
      in case lscp_client_query (Some c)
              (''GET CHANNEL BUFFER_FILL '' @ pszUsageType @ '' '' @
               show_int iSamplerChannel @ CRLF) w of
           (ret, pClient1, w1) \<Rightarrow>
             if ret = LSCP_OK then
               (case pClient1 of
                  None \<Rightarrow> Inl NullPointer
                | Some c1 \<Rightarrow>
                    (case pszResult c1 of
                       None \<Rightarrow> Inl Uninitialised
                     | Some res \<Rightarrow>
                         (let c2 = c1\<lparr>pszResult := Some (strtok_written res pszSeps)\<rparr>
                          in case buffer_fill c1 of
                               None \<Rightarrow>
                                 if lscp_strtok res pszSeps \<noteq> None \<and> 0 < iStreamCount c1
                                 then Inl NullPointer
                                 else Inr (None, Some c2, w1)
                             | Some (a, arr) \<Rightarrow>
                                 (case buffer_fill_loop
                                         (map_option fst (lscp_strtok res pszSeps))
                                         (case lscp_strtok res pszSeps of
                                            None \<Rightarrow> []
                                          | Some (t, pch) \<Rightarrow> pch)
                                         0 (iStreamCount c1) arr of
                                    Inl f \<Rightarrow> Inl f
                                  | Inr (arr1, iStream) \<Rightarrow>
                                      Inr (Some a, Some (c2\<lparr>buffer_fill := Some (a, arr1)\<rparr>),
                                           w1)))))
             else Inr (None, pClient1, w1))"

definition lscp_get_channel_buffer_fill ::
  "lscp_client_t option \<Rightarrow> lscp_usage_t \<Rightarrow> int \<Rightarrow> world \<Rightarrow> nat option outcome" where
  "lscp_get_channel_buffer_fill pClient usage_type iSamplerChannel w =
     (case pClient of
        None \<Rightarrow> Inl NullPointer
      | Some c \<Rightarrow>
          if iSamplerChannel < 0 then Inr (None, Some c, w)
          else
            (case resolve_stream_count c iSamplerChannel w of
               Inl f \<Rightarrow> Inl f
             | Inr (iCount, pClient1, w1) \<Rightarrow>
                 (case pClient1 of
                    None \<Rightarrow> Inl NullPointer
                  | Some c1 \<Rightarrow>
                      if iCount < 1 then Inr (None, Some c1, w1)
                      else
                        (case buffer_fill_realloc c1 iCount w1 of
                           (c2, w2) \<Rightarrow> buffer_fill_query c2 usage_type iSamplerChannel w2))))"

text \<open>
  The array, when there is one, has room for \<open>iStreamCount\<close> entries. This holds for a
  descriptor from \<open>lscp_client_create\<close> and is kept by every function here.
\<close>

definition fill_fits :: "lscp_client_t \<Rightarrow> bool" where
  "fill_fits c \<longleftrightarrow>
     (case buffer_fill c of None \<Rightarrow> True | Some (a, arr) \<Rightarrow> iStreamCount c \<le> int (length arr))"

subsection \<open>UDP service\<close>

text \<open>
  What \<open>recvfrom\<close> does in one iteration of the listener loop: an error, or a datagram
  from an address. The second string holds the characters of \<open>achBuffer\<close> behind the
  received ones, left there by earlier iterations; the comparison with \<open>PING\<close> happens
  before the buffer is terminated and can read them.
\<close>

datatype udp_event = Udp_error | Udp_datagram string string nat

text \<open>
  One iteration of the loop of \<open>_lscp_client_udp_proc\<close>. The client callback
  \<open>pfnCallback\<close> is an argument: it is given the received characters and answers with a
  status.
\<close>

definition udp_proc_step ::
  "(string \<Rightarrow> lscp_status_t) \<Rightarrow> lscp_client_t \<Rightarrow> udp_event \<Rightarrow> world \<Rightarrow>
   fault + (lscp_client_t \<times> world)" where
  "udp_proc_step pfnCallback c ev w =
     (case ev of
        Udp_error \<Rightarrow> Inr (c\<lparr>udp := (udp c)\<lparr>iState := 0\<rparr>\<rparr>, w)
      | Udp_datagram received behind addr \<Rightarrow>
          if length received > 0 then
            (if strncasecmp_eq (cstr (received @ behind)) ''PING '' 5 then
               (let pszSeps = CHR '' '' # CRLF;
                    achBuffer = cstr received
                in case lscp_strtok achBuffer pszSeps of
                     None \<Rightarrow> Inl Uninitialised
                   | Some (t, pch) \<Rightarrow>
                       (let pch1 = (case lscp_strtok pch pszSeps of
                                      None \<Rightarrow> pch
                                    | Some (t1, p) \<Rightarrow> p)
                        in case lscp_strtok pch1 pszSeps of
                             None \<Rightarrow> Inr (c, w)
                           | Some (pszToken, pch2) \<Rightarrow>
                               (let c1 = (if sessid c = None
                                          then c\<lparr>sessid := Some pszToken\<rparr> else c)
                                in case sessid c1 of
                                     None \<Rightarrow> Inr (c1, w)
                                   | Some sid \<Rightarrow>
                                       if pszToken = sid then
                                         Inr (c1, w\<lparr>udp_sent := udp_sent w @
                                                      [(addr, ''PONG '' @ sid @ CRLF)]\<rparr>)
                                       else Inr (c1, w))))
             else if pfnCallback received \<noteq> LSCP_OK then
               Inr (c\<lparr>udp := (udp c)\<lparr>iState := 0\<rparr>\<rparr>, w)
             else Inr (c, w))
          else Inr (c\<lparr>udp := (udp c)\<lparr>iState := 0\<rparr>\<rparr>, w))"

text \<open>
  The loop, run on the events that arrive: it ends when \<open>iState\<close> is cleared, and it
  waits in \<open>recvfrom\<close> when the events are used up.
\<close>

fun lscp_client_udp_proc ::
  "(string \<Rightarrow> lscp_status_t) \<Rightarrow> lscp_client_t \<Rightarrow> udp_event list \<Rightarrow> world \<Rightarrow>
   fault + (lscp_client_t \<times> world)" where
  "lscp_client_udp_proc pfnCallback c [] w = Inr (c, w)"
| "lscp_client_udp_proc pfnCallback c (ev # evs) w =
     (if iState (udp c) = 0 then Inr (c, w)
      else
        (case udp_proc_step pfnCallback c ev w of
           Inl f \<Rightarrow> Inl f
         | Inr (c1, w1) \<Rightarrow> lscp_client_udp_proc pfnCallback c1 evs w1))"

subsection \<open>The operations on a live session\<close>

text \<open>
  Everything that can act on the descriptor between \<open>lscp_client_create\<close> and
  \<open>lscp_client_destroy\<close>: the functions above, called by the application, and an
  iteration of the listener. The command wrappers that only format a line and pass it to
  \<open>lscp_client_query\<close> are \<open>Query\<close> with that line.
\<close>

datatype client_op =
    Query string
  | Set_timeout int
  | Subscribe
  | Unsubscribe
  | Available_audio_drivers
  | Available_midi_drivers
  | Available_engines
  | Audio_driver_info "string option"
  | Midi_driver_info "string option"
  | Engine_info "string option"
  | Channel_info int
  | Stream_count int
  | Buffer_fill lscp_usage_t int
  | Listener udp_event

text \<open>The status an operation returned, for those that return one.\<close>

definition run_op ::
  "(string \<Rightarrow> real) \<Rightarrow> (string \<Rightarrow> lscp_status_t) \<Rightarrow> client_op \<Rightarrow> lscp_client_t \<Rightarrow> world \<Rightarrow>
   fault + (lscp_status_t option \<times> lscp_client_t option \<times> world)" where
  "run_op atof pfnCallback op c w =
     (case op of
        Query line \<Rightarrow>
          (case lscp_client_query (Some c) line w of
             (ret, pc, w1) \<Rightarrow> Inr (Some ret, pc, w1))
      | Set_timeout t \<Rightarrow>
          (case lscp_client_set_timeout (Some c) t of
             (ret, pc) \<Rightarrow> Inr (Some ret, pc, w))
      | Subscribe \<Rightarrow>
          map_sum id (\<lambda>(ret, pc, w1). (Some ret, pc, w1)) (lscp_client_subscribe (Some c) w)
      | Unsubscribe \<Rightarrow>
          map_sum id (\<lambda>(ret, pc, w1). (Some ret, pc, w1)) (lscp_client_unsubscribe (Some c) w)
      | Available_audio_drivers \<Rightarrow>
          map_sum id (\<lambda>(r, pc, w1). (None, pc, w1)) (lscp_get_available_audio_drivers (Some c) w)
      | Available_midi_drivers \<Rightarrow>
          map_sum id (\<lambda>(r, pc, w1). (None, pc, w1)) (lscp_get_available_midi_drivers (Some c) w)
      | Available_engines \<Rightarrow>
          map_sum id (\<lambda>(r, pc, w1). (None, pc, w1)) (lscp_get_available_engines (Some c) w)
      | Audio_driver_info name \<Rightarrow>
          map_sum id (\<lambda>(r, pc, w1). (None, pc, w1)) (lscp_get_audio_driver_info (Some c) name w)
      | Midi_driver_info name \<Rightarrow>
          map_sum id (\<lambda>(r, pc, w1). (None, pc, w1)) (lscp_get_midi_driver_info (Some c) name w)
      | Engine_info name \<Rightarrow>
          map_sum id (\<lambda>(r, pc, w1). (None, pc, w1)) (lscp_get_engine_info (Some c) name w)
      | Channel_info n \<Rightarrow>
          map_sum id (\<lambda>(r, pc, w1). (None, pc, w1)) (lscp_get_channel_info atof (Some c) n w)
      | Stream_count n \<Rightarrow>
          map_sum id (\<lambda>(r, pc, w1). (None, pc, w1)) (lscp_get_channel_stream_count (Some c) n w)
      | Buffer_fill u n \<Rightarrow>
          map_sum id (\<lambda>(r, pc, w1). (None, pc, w1)) (lscp_get_channel_buffer_fill (Some c) u n w)
      | Listener ev \<Rightarrow>
          map_sum id (\<lambda>(c1, w1). (None, Some c1, w1)) (udp_proc_step pfnCallback c ev w))"

subsection \<open>Example sessions\<close>

text \<open>
  A session as \<open>lscp_client_create\<close> leaves it, with its UDP socket bound to port 5000,
  and a world in which nothing has happened yet and the given events are to come.
\<close>

definition ex_client :: lscp_client_t where
  "ex_client =
     lscp_client_create \<lparr>sock = 3, sin_port = 8888, iState = 1\<rparr>
       \<lparr>sock = 4, sin_port = 5000, iState = 1\<rparr>"

definition ex_world :: "net_event list \<Rightarrow> world" where
  "ex_world evs =
     \<lparr>tcp_sent = [], tcp_replies = evs, udp_sent = [], heap_next = 0, heap_freed = []\<rparr>"

text \<open>
  A transaction that the server answers with error 5, followed by one that it does not
  answer.
\<close>

definition ex_error_then_silence :: world where
  "ex_error_then_silence =
     ex_world [Recv (Some (''ERR:5:Invalid channel'' @ CRLF)), SelectTimeout]"

definition ex_after_error :: "lscp_status_t \<times> lscp_client_t option \<times> world" where
  "ex_after_error =
     lscp_client_query (Some ex_client) (''GET CHANNEL INFO 7'' @ CRLF) ex_error_then_silence"

definition ex_after_silence :: "lscp_status_t \<times> lscp_client_t option \<times> world" where
  "ex_after_silence =
     lscp_client_query (fst (snd ex_after_error)) (''GET CHANNELS'' @ CRLF)
       (snd (snd ex_after_error))"

text \<open>A stand-in for \<open>atof\<close> in the examples: it reads the integer part only.\<close>

definition ex_atof :: "string \<Rightarrow> real" where
  "ex_atof s = of_int (atoi s)"

text \<open>A client callback that accepts every notification.\<close>

definition ex_callback :: "string \<Rightarrow> lscp_status_t" where
  "ex_callback pchBuffer = LSCP_OK"

text \<open>
  A server that has two streams on channel 0 and answers a stream count query and two
  buffer fill queries; and the server with the session after the first buffer fill call.
\<close>

definition ex_fill_world :: world where
  "ex_fill_world =
     ex_world [Recv (Some (''2'' @ CRLF)), Recv (Some (''[1]10,[2]20'' @ CRLF)),
               Recv (Some (''[1]30,[2]40'' @ CRLF))]"

definition ex_filled_client :: lscp_client_t where
  "ex_filled_client =
     ex_client\<lparr>pszResult := Some ''[1'', iErrno := 0,
                buffer_fill := Some (0, [\<lparr>stream_id = Some 1, stream_usage = Some 10\<rparr>,
                                         \<lparr>stream_id = Some 2, stream_usage = Some 20\<rparr>]),
                iStreamCount := 2\<rparr>"

definition ex_filled_world :: world where
  "ex_filled_world =
     \<lparr>tcp_sent = [''GET CHANNEL STREAM_COUNT 0'' @ CRLF,
                  ''GET CHANNEL BUFFER_FILL BYTES 0'' @ CRLF],
      tcp_replies = [Recv (Some (''[1]30,[2]40'' @ CRLF))],
      udp_sent = [], heap_next = 1, heap_freed = []\<rparr>"


text \<open>The session after the keepalive \<open>PING 5000 abc123\<close> has bound its id.\<close>

definition ex_bound_client :: lscp_client_t where
  "ex_bound_client = ex_client\<lparr>sessid := Some ''abc123''\<rparr>"

subsection \<open>The response formats in the words of the specification\<close>

text \<open>
  The specification describes an error response as the colon-delimited form
  \<open><tag>:<code>:<message>\<close> and a tagged success as \<open>OK[<payload>]\<close>. These two
  definitions follow its words, for comparison with what \<open>lscp_client_query\<close> stores:
  the fields between colons, and the text between \<open>OK[\<close> and the closing bracket.
\<close>

fun colon_fields :: "string \<Rightarrow> string list" where
  "colon_fields [] = [[]]"
| "colon_fields (c # cs) =
     (if c = CHR '':'' then [] # colon_fields cs
      else (case colon_fields cs of
              [] \<Rightarrow> [[c]]
            | f # fs \<Rightarrow> (c # f) # fs))"

definition bracketed_payload :: "string \<Rightarrow> string" where
  "bracketed_payload text = takeWhile (\<lambda>c. c \<noteq> CHR '']'') (drop 3 text)"

section \<open>Properties\<close>

subsection \<open>Numbers\<close>

text \<open>
  \<open>atoi\<close> and \<open>atol\<close> on numbers inside and outside the range of their result types.
\<close>

lemma atoi_examples:
  "atoi ''5'' = 5 \<and> atoi '' -12x'' = - 12 \<and> atoi ''4294967301'' = 5 \<and>
   atol ''4294967301'' = 4294967301 \<and> atol ''99999999999999999999'' = LONG_MAX \<and>
   atoi ''99999999999999999999'' = - 1"
  by (simp add: atoi_def atol_def to_int32_def decimal_val_def LONG_MAX_def LONG_MIN_def
      isspace_def isdigit_def)

subsection \<open>NULL descriptors\<close>

text \<open>
  Each of the client functions \<open>lscp_client_query\<close>, \<open>lscp_client_set_timeout\<close>,
  \<open>lscp_client_destroy\<close> and \<open>lscp_client_join\<close> returns \<open>LSCP_FAILED\<close> when it is given
  a NULL descriptor, \<open>lscp_client_get_result\<close> returns NULL, and \<open>lscp_client_get_errno\<close>
  and \<open>lscp_client_get_timeout\<close> return \<open>-1\<close>. No descriptor comes into being, and the
  world is as before: nothing was sent and no event of the network was used.
\<close>

theorem null_client_fails:
  "lscp_client_query None q w = (LSCP_FAILED, None, w) \<and>
   lscp_client_set_timeout None t = (LSCP_FAILED, None) \<and>
   lscp_client_destroy None w = (LSCP_FAILED, None, w) \<and>
   lscp_client_join None = LSCP_FAILED \<and>
   lscp_client_get_result None = None \<and>
   lscp_client_get_errno None = - 1 \<and>
   lscp_client_get_timeout None = - 1"
  by (simp add: lscp_client_query_def lscp_client_set_timeout_def lscp_client_destroy_def
      lscp_client_join_def lscp_client_get_result_def lscp_client_get_errno_def
      lscp_client_get_timeout_def)

text \<open>
  C10. Not every public operation does so. On a NULL descriptor
  \<open>lscp_get_channel_buffer_fill\<close> reads \<open>pClient->iStreamCount\<close> in the initialiser of its
  local \<open>iStreamCount\<close>, before any test, for every usage type and channel; and
  \<open>lscp_get_available_audio_drivers\<close>, \<open>lscp_get_available_midi_drivers\<close> and
  \<open>lscp_get_available_engines\<close> read their member of \<open>*pClient\<close> for the return value
  after the query has failed. Each of the four is a read through NULL, where the
  documentation of the function promises a NULL return in case of failure.
\<close>

theorem null_client_dereferenced:
  "lscp_get_channel_buffer_fill None u n w = Inl NullPointer \<and>
   lscp_get_available_audio_drivers None w = Inl NullPointer \<and>
   lscp_get_available_midi_drivers None w = Inl NullPointer \<and>
   lscp_get_available_engines None w = Inl NullPointer"
  by (simp add: lscp_get_channel_buffer_fill_def lscp_get_available_audio_drivers_def
      lscp_get_available_midi_drivers_def lscp_get_available_engines_def
      lscp_client_query_def)

subsection \<open>Timeout\<close>

lemma ltrim_timeout:
  "lscp_ltrim ''Timeout during receive operation'' = ''Timeout during receive operation''"
  by (simp add: lscp_ltrim_def isspace_def)

text \<open>
  C1, amended. When \<open>lscp_client_call\<close> reports \<open>LSCP_TIMEOUT\<close> inside
  \<open>lscp_client_query\<close>, the query returns \<open>LSCP_TIMEOUT\<close>, the stored result text becomes
  the fixed timeout message, and the stored error code becomes \<open>-1\<close>, whatever it was
  before. Nothing else in the descriptor changes.
\<close>

theorem query_timeout:
  assumes "fst (fst (lscp_client_call (Some c) q w)) = LSCP_TIMEOUT"
  shows "lscp_client_query (Some c) q w =
           (LSCP_TIMEOUT,
            Some (c\<lparr>pszResult := Some ''Timeout during receive operation'', iErrno := - 1\<rparr>),
            snd (lscp_client_call (Some c) q w))"
proof -
  obtain bs w1 where call: "lscp_client_call (Some c) q w = ((LSCP_TIMEOUT, bs), w1)"
    using assms by (cases "lscp_client_call (Some c) q w") auto
  show ?thesis
    by (simp add: lscp_client_query_def call lscp_client_set_result_def ltrim_timeout)
qed

text \<open>A silent server: the first query of a fresh session times out.\<close>

theorem query_timeout_witness:
  "fst (fst (lscp_client_call (Some ex_client) (''GET CHANNELS'' @ CRLF) (ex_world []))) =
     LSCP_TIMEOUT \<and>
   lscp_client_query (Some ex_client) (''GET CHANNELS'' @ CRLF) (ex_world []) =
     (LSCP_TIMEOUT,
      Some (ex_client\<lparr>pszResult := Some ''Timeout during receive operation'', iErrno := - 1\<rparr>),
      snd (lscp_client_call (Some ex_client) (''GET CHANNELS'' @ CRLF) (ex_world [])))"
proof -
  have h: "fst (fst (lscp_client_call (Some ex_client) (''GET CHANNELS'' @ CRLF) (ex_world []))) =
             LSCP_TIMEOUT"
    by (simp add: lscp_client_call_def ex_world_def CRLF_def)
  show ?thesis
    using h query_timeout [OF h] by simp
qed

lemmas c_string_defs =
  CRLF_def NUL_def cstr_def cstr_at_def trim_crlf_def isspace_def isdigit_def tolower_def
  strcasecmp_eq_def strncasecmp_eq_def atoi_def atol_def to_int32_def decimal_val_def
  LONG_MAX_def LONG_MIN_def lscp_strtok_def strtok_written_def
  lscp_ltrim_def

lemma ex_after_error_eq:
  "ex_after_error =
     (LSCP_ERROR, Some (ex_client\<lparr>pszResult := Some ''Invalid channel'', iErrno := 5\<rparr>),
      \<lparr>tcp_sent = [''GET CHANNEL INFO 7'' @ CRLF], tcp_replies = [SelectTimeout],
       udp_sent = [], heap_next = 0, heap_freed = []\<rparr>)"
  by (simp add: ex_after_error_def ex_error_then_silence_def ex_world_def
      lscp_client_query_def lscp_client_call_def lscp_client_set_result_def c_string_defs)

lemma ex_after_silence_eq:
  "ex_after_silence =
     (LSCP_TIMEOUT,
      Some (ex_client\<lparr>pszResult := Some ''Timeout during receive operation'', iErrno := - 1\<rparr>),
      \<lparr>tcp_sent = [''GET CHANNEL INFO 7'' @ CRLF, ''GET CHANNELS'' @ CRLF], tcp_replies = [],
       udp_sent = [], heap_next = 0, heap_freed = []\<rparr>)"
  by (simp add: ex_after_silence_def ex_after_error_eq
      lscp_client_query_def lscp_client_call_def lscp_client_set_result_def c_string_defs)

text \<open>
  C1 as stated fails: after the answer \<open>ERR:5:Invalid channel\<close> the error code is 5; the
  next transaction times out, and the error code is then \<open>-1\<close>, not 5.
\<close>

theorem timeout_errno_counterexample:
  "lscp_client_get_errno (fst (snd ex_after_error)) = 5 \<and>
   fst (fst (lscp_client_call (fst (snd ex_after_error)) (''GET CHANNELS'' @ CRLF)
               (snd (snd ex_after_error)))) = LSCP_TIMEOUT \<and>
   fst ex_after_silence = LSCP_TIMEOUT \<and>
   lscp_client_get_errno (fst (snd ex_after_silence)) = - 1 \<and>
   lscp_client_get_errno (fst (snd ex_after_silence)) \<noteq>
     lscp_client_get_errno (fst (snd ex_after_error))"
  by (simp add: ex_after_error_eq ex_after_silence_eq lscp_client_get_errno_def
      lscp_client_call_def CRLF_def)

subsection \<open>What a query changes\<close>

lemma query_frame:
  assumes "lscp_client_query (Some c) q w = (ret, pc, w')"
  shows "\<exists>r e. pc = Some (c\<lparr>pszResult := r, iErrno := e\<rparr>)"
  using assms
  by (auto simp: lscp_client_query_def lscp_client_set_result_def Let_def split: prod.splits)

lemma call_world:
  assumes "lscp_client_call pc q w = (res, w')"
  shows "udp_sent w' = udp_sent w \<and> heap_next w' = heap_next w \<and> heap_freed w' = heap_freed w \<and>
         (tcp_sent w' = tcp_sent w \<or> tcp_sent w' = tcp_sent w @ [q])"
  using assms
  by (auto simp: lscp_client_call_def Let_def split: option.splits if_splits net_event.splits list.splits)

lemma query_world:
  assumes "lscp_client_query pc q w = (ret, pc', w')"
  shows "udp_sent w' = udp_sent w \<and> heap_next w' = heap_next w \<and> heap_freed w' = heap_freed w \<and>
         (tcp_sent w' = tcp_sent w \<or> tcp_sent w' = tcp_sent w @ [q])"
proof (cases pc)
  case None
  with assms show ?thesis by (simp add: lscp_client_query_def)
next
  case (Some c)
  obtain res w1 where call: "lscp_client_call (Some c) q w = (res, w1)"
    by (cases "lscp_client_call (Some c) q w")
  with assms Some have "w' = w1"
    by (auto simp: lscp_client_query_def Let_def split: prod.splits)
  with call_world [OF call] show ?thesis by simp
qed


subsection \<open>Failed info queries\<close>

text \<open>
  C3. For each typed info query (audio and MIDI driver info, engine info, channel info):
  when the transaction it issues does not return \<open>LSCP_OK\<close>, the function returns NULL
  and the descriptor differs from the one before the call in the result text and the
  error code only; in particular the cache structure of the query is as it was.
\<close>

theorem failed_info_query_keeps_cache:
  "(fst (lscp_client_query (Some c) (''GET AUDIO_OUTPUT_DRIVER INFO '' @ drv @ CRLF) w) \<noteq> LSCP_OK \<longrightarrow>
      (\<exists>r e w'. lscp_get_audio_driver_info (Some c) (Some drv) w =
                  Inr (None, Some (c\<lparr>pszResult := r, iErrno := e\<rparr>), w') \<and>
                audio_info (c\<lparr>pszResult := r, iErrno := e\<rparr>) = audio_info c)) \<and>
   (fst (lscp_client_query (Some c) (''GET MIDI_INPUT_DRIVER INFO '' @ drv @ CRLF) w) \<noteq> LSCP_OK \<longrightarrow>
      (\<exists>r e w'. lscp_get_midi_driver_info (Some c) (Some drv) w =
                  Inr (None, Some (c\<lparr>pszResult := r, iErrno := e\<rparr>), w') \<and>
                midi_info (c\<lparr>pszResult := r, iErrno := e\<rparr>) = midi_info c)) \<and>
   (fst (lscp_client_query (Some c) (''GET ENGINE INFO '' @ eng @ CRLF) w) \<noteq> LSCP_OK \<longrightarrow>
      (\<exists>r e w'. lscp_get_engine_info (Some c) (Some eng) w =
                  Inr (False, Some (c\<lparr>pszResult := r, iErrno := e\<rparr>), w') \<and>
                engine_info (c\<lparr>pszResult := r, iErrno := e\<rparr>) = engine_info c)) \<and>
   (0 \<le> n \<and>
    fst (lscp_client_query (Some c) (''GET CHANNEL INFO '' @ show_int n @ CRLF) w) \<noteq> LSCP_OK \<longrightarrow>
      (\<exists>r e w'. lscp_get_channel_info atof (Some c) n w =
                  Inr (False, Some (c\<lparr>pszResult := r, iErrno := e\<rparr>), w') \<and>
                channel_info (c\<lparr>pszResult := r, iErrno := e\<rparr>) = channel_info c))"
proof -
  have drv: "\<exists>r e w'. lscp_driver_info_query (Some c) m q w =
                Inr (None, Some (c\<lparr>pszResult := r, iErrno := e\<rparr>), w')"
    if "fst (lscp_client_query (Some c) q w) \<noteq> LSCP_OK" for m q
  proof -
    obtain ret pc w' where eq: "lscp_client_query (Some c) q w = (ret, pc, w')"
      by (cases "lscp_client_query (Some c) q w")
    from query_frame [OF eq] obtain r e where "pc = Some (c\<lparr>pszResult := r, iErrno := e\<rparr>)"
      by blast
    with eq that show ?thesis
      by (auto simp: lscp_driver_info_query_def)
  qed
  have eng: "\<exists>r e w'. lscp_get_engine_info (Some c) (Some eng) w =
                Inr (False, Some (c\<lparr>pszResult := r, iErrno := e\<rparr>), w')"
    if "fst (lscp_client_query (Some c) (''GET ENGINE INFO '' @ eng @ CRLF) w) \<noteq> LSCP_OK"
  proof -
    obtain ret pc w' where
      eq: "lscp_client_query (Some c) (''GET ENGINE INFO '' @ eng @ CRLF) w = (ret, pc, w')"
      by (cases "lscp_client_query (Some c) (''GET ENGINE INFO '' @ eng @ CRLF) w")
    from query_frame [OF eq] obtain r e where "pc = Some (c\<lparr>pszResult := r, iErrno := e\<rparr>)"
      by blast
    with eq that show ?thesis
      by (auto simp: lscp_get_engine_info_def)
  qed
  have chan: "\<exists>r e w'. lscp_get_channel_info atof (Some c) n w =
                Inr (False, Some (c\<lparr>pszResult := r, iErrno := e\<rparr>), w')"
    if "0 \<le> n"
      and "fst (lscp_client_query (Some c) (''GET CHANNEL INFO '' @ show_int n @ CRLF) w) \<noteq> LSCP_OK"
  proof -
    obtain ret pc w' where
      eq: "lscp_client_query (Some c) (''GET CHANNEL INFO '' @ show_int n @ CRLF) w = (ret, pc, w')"
      by (cases "lscp_client_query (Some c) (''GET CHANNEL INFO '' @ show_int n @ CRLF) w")
    from query_frame [OF eq] obtain r e where "pc = Some (c\<lparr>pszResult := r, iErrno := e\<rparr>)"
      by blast
    with eq that show ?thesis
      by (auto simp: lscp_get_channel_info_def)
  qed
  show ?thesis
    using drv [of _ Audio_info] drv [of _ Midi_info] eng chan
    by (simp add: lscp_get_audio_driver_info_def lscp_get_midi_driver_info_def)
qed

text \<open>A silent server: every query of a fresh session times out.\<close>

lemma ex_silent_query:
  "lscp_client_query (Some ex_client) (x # q) (ex_world []) =
     (LSCP_TIMEOUT,
      Some (ex_client\<lparr>pszResult := Some ''Timeout during receive operation'', iErrno := - 1\<rparr>),
      (ex_world [])\<lparr>tcp_sent := [x # q]\<rparr>)"
  by (simp add: lscp_client_query_def lscp_client_call_def lscp_client_set_result_def
      ex_world_def ltrim_timeout)

theorem failed_info_query_keeps_cache_witness:
  "fst (lscp_client_query (Some ex_client) (''GET AUDIO_OUTPUT_DRIVER INFO '' @ ''ALSA'' @ CRLF)
          (ex_world [])) \<noteq> LSCP_OK \<and>
   (\<exists>r e w'. lscp_get_audio_driver_info (Some ex_client) (Some ''ALSA'') (ex_world []) =
               Inr (None, Some (ex_client\<lparr>pszResult := r, iErrno := e\<rparr>), w') \<and>
             audio_info (ex_client\<lparr>pszResult := r, iErrno := e\<rparr>) = audio_info ex_client) \<and>
   fst (lscp_client_query (Some ex_client) (''GET MIDI_INPUT_DRIVER INFO '' @ ''ALSA'' @ CRLF)
          (ex_world [])) \<noteq> LSCP_OK \<and>
   (\<exists>r e w'. lscp_get_midi_driver_info (Some ex_client) (Some ''ALSA'') (ex_world []) =
               Inr (None, Some (ex_client\<lparr>pszResult := r, iErrno := e\<rparr>), w') \<and>
             midi_info (ex_client\<lparr>pszResult := r, iErrno := e\<rparr>) = midi_info ex_client) \<and>
   fst (lscp_client_query (Some ex_client) (''GET ENGINE INFO '' @ ''GigEngine'' @ CRLF)
          (ex_world [])) \<noteq> LSCP_OK \<and>
   (\<exists>r e w'. lscp_get_engine_info (Some ex_client) (Some ''GigEngine'') (ex_world []) =
               Inr (False, Some (ex_client\<lparr>pszResult := r, iErrno := e\<rparr>), w') \<and>
             engine_info (ex_client\<lparr>pszResult := r, iErrno := e\<rparr>) = engine_info ex_client) \<and>
   (0::int) \<le> 7 \<and>
   fst (lscp_client_query (Some ex_client) (''GET CHANNEL INFO '' @ show_int 7 @ CRLF)
          (ex_world [])) \<noteq> LSCP_OK \<and>
   (\<exists>r e w'. lscp_get_channel_info ex_atof (Some ex_client) 7 (ex_world []) =
               Inr (False, Some (ex_client\<lparr>pszResult := r, iErrno := e\<rparr>), w') \<and>
             channel_info (ex_client\<lparr>pszResult := r, iErrno := e\<rparr>) = channel_info ex_client)"
proof -
  have h1: "fst (lscp_client_query (Some ex_client)
                   (''GET AUDIO_OUTPUT_DRIVER INFO '' @ ''ALSA'' @ CRLF) (ex_world [])) \<noteq> LSCP_OK"
    by (simp add: ex_silent_query)
  have h2: "fst (lscp_client_query (Some ex_client)
                   (''GET MIDI_INPUT_DRIVER INFO '' @ ''ALSA'' @ CRLF) (ex_world [])) \<noteq> LSCP_OK"
    by (simp add: ex_silent_query)
  have h3: "fst (lscp_client_query (Some ex_client)
                   (''GET ENGINE INFO '' @ ''GigEngine'' @ CRLF) (ex_world [])) \<noteq> LSCP_OK"
    by (simp add: ex_silent_query)
  have h4: "fst (lscp_client_query (Some ex_client)
                   (''GET CHANNEL INFO '' @ show_int 7 @ CRLF) (ex_world [])) \<noteq> LSCP_OK"
    by (simp add: ex_silent_query)
  show ?thesis
    using h1 h2 h3 h4
      failed_info_query_keeps_cache [of ex_client "''ALSA''" "ex_world []" "''GigEngine''" 7 ex_atof]
    by simp
qed

subsection \<open>Tokens\<close>

lemma cstr_id: "NUL \<notin> set s \<Longrightarrow> cstr s = s"
  by (auto simp: cstr_def)

lemma dropWhile_seps_token:
  assumes "t \<noteq> []" and "\<forall>ch\<in>set t. ch \<notin> set seps"
  shows "dropWhile (\<lambda>c. c \<in> set seps) (t @ r) = t @ r"
  using assms by (cases t) auto

lemma strtok_token:
  assumes "t \<noteq> []" and "\<forall>ch\<in>set t. ch \<notin> set seps" and "s \<in> set seps"
  shows "lscp_strtok (t @ s # rest) seps = Some (t, dropWhile (\<lambda>c. c \<in> set seps) rest)"
proof -
  have 1: "dropWhile (\<lambda>c. c \<in> set seps) (t @ s # rest) = t @ s # rest"
    using assms(1,2) by (rule dropWhile_seps_token)
  have 2: "dropWhile (\<lambda>c. c \<notin> set seps) (t @ s # rest) = s # rest"
    using assms(2,3) by (simp add: dropWhile_append2)
  have 3: "takeWhile (\<lambda>c. c \<notin> set seps) (t @ s # rest) = t"
    using assms(2,3) by (simp add: takeWhile_append2)
  show ?thesis
    unfolding lscp_strtok_def Let_def 1 2 3 using assms(1) by simp
qed

lemma strtok_last:
  assumes "t \<noteq> []" and "\<forall>ch\<in>set t. ch \<notin> set seps"
  shows "lscp_strtok t seps = Some (t, [])"
proof -
  have 1: "dropWhile (\<lambda>c. c \<in> set seps) t = t"
    using dropWhile_seps_token [OF assms, of "[]"] by simp
  have 2: "dropWhile (\<lambda>c. c \<notin> set seps) t = []"
    using assms(2) by simp
  show ?thesis
    unfolding lscp_strtok_def Let_def 1 2 using assms(1) by simp
qed

subsection \<open>Keepalive\<close>

text \<open>
  C2, amended. When the listener receives the datagram \<open>PING <port> <session-id>\<close>
  while the session has no bound session-id, it adopts that id and at once sends
  \<open>PONG <session-id>\<close> to the sender. When an id is bound, a PING with that id is
  answered with the same PONG, and a PING with another id changes nothing and gets no
  answer.
\<close>

theorem ping_adopts_and_answers:
  assumes "port \<noteq> []" and "sid \<noteq> []"
    and "\<forall>ch\<in>set (port @ sid). ch \<notin> set (CHR '' '' # CRLF @ [NUL])"
  shows "udp_proc_step cb c (Udp_datagram (''PING '' @ port @ '' '' @ sid) behind addr) w =
           (case sessid c of
              None \<Rightarrow>
                Inr (c\<lparr>sessid := Some sid\<rparr>,
                     w\<lparr>udp_sent := udp_sent w @ [(addr, ''PONG '' @ sid @ CRLF)]\<rparr>)
            | Some bound \<Rightarrow>
                if sid = bound
                then Inr (c, w\<lparr>udp_sent := udp_sent w @ [(addr, ''PONG '' @ sid @ CRLF)]\<rparr>)
                else Inr (c, w))"
proof -
  let ?seps = "CHR '' '' # CRLF"
  define d where "d = ''PING '' @ port @ '' '' @ sid"
  from assms(3) have port: "\<forall>ch\<in>set port. ch \<notin> set ?seps"
    and sid: "\<forall>ch\<in>set sid. ch \<notin> set ?seps"
    and nul: "NUL \<notin> set port" "NUL \<notin> set sid"
    by auto
  have len: "d \<noteq> []"
    by (simp add: d_def)
  have ping: "strncasecmp_eq (cstr (d @ behind)) ''PING '' 5"
    by (simp add: d_def strncasecmp_eq_def cstr_def NUL_def)
  have view: "cstr d = d"
    using nul by (intro cstr_id) (auto simp: d_def NUL_def)
  have "lscp_strtok (''PING'' @ CHR '' '' # port @ CHR '' '' # sid) ?seps =
          Some (''PING'', dropWhile (\<lambda>c. c \<in> set ?seps) (port @ CHR '' '' # sid))"
    by (rule strtok_token) (simp_all add: CRLF_def)
  then have t1: "lscp_strtok d ?seps = Some (''PING'', port @ CHR '' '' # sid)"
    using dropWhile_seps_token [OF assms(1) port, of "CHR '' '' # sid"]
    by (simp add: d_def)
  have "lscp_strtok (port @ CHR '' '' # sid) ?seps =
          Some (port, dropWhile (\<lambda>c. c \<in> set ?seps) sid)"
    using assms(1) port by (rule strtok_token) simp
  then have t2: "lscp_strtok (port @ CHR '' '' # sid) ?seps = Some (port, sid)"
    using dropWhile_seps_token [OF assms(2) sid, of "[]"] by simp
  have t3: "lscp_strtok sid ?seps = Some (sid, [])"
    using assms(2) sid by (rule strtok_last)
  have "udp_proc_step cb c (Udp_datagram d behind addr) w =
           (case sessid c of
              None \<Rightarrow>
                Inr (c\<lparr>sessid := Some sid\<rparr>,
                     w\<lparr>udp_sent := udp_sent w @ [(addr, ''PONG '' @ sid @ CRLF)]\<rparr>)
            | Some bound \<Rightarrow>
                if sid = bound
                then Inr (c, w\<lparr>udp_sent := udp_sent w @ [(addr, ''PONG '' @ sid @ CRLF)]\<rparr>)
                else Inr (c, w))"
    unfolding udp_proc_step_def
    by (simp add: len ping view t1 t2 t3 Let_def split: option.split)
  then show ?thesis
    unfolding d_def .
qed

lemma ex_client_sessid: "sessid ex_client = None"
  by (simp add: ex_client_def lscp_client_create_def)

text \<open>
  The first keepalive of a fresh session, and a later keepalive with another id.
\<close>

theorem ping_adopts_and_answers_witness:
  "''5000'' \<noteq> [] \<and> ''abc123'' \<noteq> [] \<and>
   list_all (\<lambda>ch. ch \<notin> set (CHR '' '' # CRLF @ [NUL])) (''5000'' @ ''abc123'') \<and>
   udp_proc_step ex_callback ex_client (Udp_datagram (''PING '' @ ''5000'' @ '' '' @ ''abc123'') [] 7)
       (ex_world []) =
     Inr (ex_client\<lparr>sessid := Some ''abc123''\<rparr>,
          (ex_world [])\<lparr>udp_sent := udp_sent (ex_world []) @ [(7, ''PONG '' @ ''abc123'' @ CRLF)]\<rparr>) \<and>
   ''zzz'' \<noteq> [] \<and>
   list_all (\<lambda>ch. ch \<notin> set (CHR '' '' # CRLF @ [NUL])) (''5000'' @ ''zzz'') \<and>
   udp_proc_step ex_callback (ex_client\<lparr>sessid := Some ''abc123''\<rparr>)
       (Udp_datagram (''PING '' @ ''5000'' @ '' '' @ ''zzz'') [] 7) (ex_world []) =
     Inr (ex_client\<lparr>sessid := Some ''abc123''\<rparr>, ex_world [])"
proof -
  have h1: "''5000'' \<noteq> []" and h2: "''abc123'' \<noteq> []" and h4: "''zzz'' \<noteq> []"
    by simp_all
  have h3: "\<forall>ch\<in>set (''5000'' @ ''abc123''). ch \<notin> set (CHR '' '' # CRLF @ [NUL])"
    by (simp add: CRLF_def NUL_def)
  have h5: "\<forall>ch\<in>set (''5000'' @ ''zzz''). ch \<notin> set (CHR '' '' # CRLF @ [NUL])"
    by (simp add: CRLF_def NUL_def)
  show ?thesis
    using h3 h5
      ping_adopts_and_answers [OF h1 h2 h3, of ex_callback ex_client "[]" 7 "ex_world []"]
      ping_adopts_and_answers [OF h1 h4 h5, of ex_callback
        "ex_client\<lparr>sessid := Some ''abc123''\<rparr>" "[]" 7 "ex_world []"]
    by (simp add: ex_client_sessid CRLF_def NUL_def)
qed

text \<open>
  C2 as stated fails: the session has no bound id, and the datagram
  \<open>PING 5000 abc123\<close> is answered with \<open>PONG abc123\<close>.
\<close>

theorem ping_unbound_counterexample:
  "sessid ex_client = None \<and>
   udp_proc_step ex_callback ex_client (Udp_datagram ''PING 5000 abc123'' [] 7) (ex_world []) =
     Inr (ex_client\<lparr>sessid := Some ''abc123''\<rparr>,
          (ex_world [])\<lparr>udp_sent := [(7, ''PONG abc123'' @ CRLF)]\<rparr>)"
  by (simp add: ex_client_sessid udp_proc_step_def ex_world_def c_string_defs)

subsection \<open>Response classification\<close>

text \<open>
  \<open>lscp_client_query\<close> cuts the response into tokens with one set of separators,
  \<open>:[]\<close>, for the three forms \<open>OK[...]\<close>, \<open>ERR:<code>:<message>\<close> and
  \<open>WRN:<code>:<message>\<close>. The colon belongs to the error forms and the brackets to the
  success form, and each form is cut at the separators of the other as well.
\<close>

text \<open>
  C4. The response \<open>ERR:5:Invalid [channel]\<close>, followed by CR and LF: the status is
  \<open>LSCP_ERROR\<close> and the error code 5, and the stored result text is \<open>Invalid \<close>, cut at
  the bracket, where the message field, the third of the fields between colons, is
  \<open>Invalid [channel]\<close>. For \<open>ERR:5:Invalid channel\<close>, whose message holds no
  separator, the stored result text is the message.
\<close>

theorem query_error_message_cut:
  "lscp_client_query (Some ex_client) (''GET CHANNEL INFO 7'' @ CRLF)
       (ex_world [Recv (Some (''ERR:5:Invalid [channel]'' @ CRLF))]) =
     (LSCP_ERROR, Some (ex_client\<lparr>pszResult := Some ''Invalid '', iErrno := 5\<rparr>),
      (ex_world [])\<lparr>tcp_sent := [''GET CHANNEL INFO 7'' @ CRLF]\<rparr>) \<and>
   colon_fields ''ERR:5:Invalid [channel]'' = [''ERR'', ''5'', ''Invalid [channel]''] \<and>
   lscp_client_query (Some ex_client) (''GET CHANNEL INFO 7'' @ CRLF)
       (ex_world [Recv (Some (''ERR:5:Invalid channel'' @ CRLF))]) =
     (LSCP_ERROR, Some (ex_client\<lparr>pszResult := Some ''Invalid channel'', iErrno := 5\<rparr>),
      (ex_world [])\<lparr>tcp_sent := [''GET CHANNEL INFO 7'' @ CRLF]\<rparr>)"
  by (simp add: ex_world_def lscp_client_query_def lscp_client_call_def
      lscp_client_set_result_def c_string_defs)

text \<open>
  C5. The response \<open>OK[a:b]\<close>, followed by CR and LF: the status is \<open>LSCP_OK\<close> and the
  error code 0, and the stored result text is \<open>a\<close>, cut at the colon, where the text
  between \<open>OK[\<close> and the closing bracket is \<open>a:b\<close>. The same text \<open>a:b\<close> as a plain
  response is stored whole, and for \<open>OK[42]\<close> the stored result text is \<open>42\<close>.
\<close>

theorem query_ok_payload_cut:
  "lscp_client_query (Some ex_client) (''GET CHANNELS'' @ CRLF)
       (ex_world [Recv (Some (''OK[a:b]'' @ CRLF))]) =
     (LSCP_OK, Some (ex_client\<lparr>pszResult := Some ''a'', iErrno := 0\<rparr>),
      (ex_world [])\<lparr>tcp_sent := [''GET CHANNELS'' @ CRLF]\<rparr>) \<and>
   bracketed_payload ''OK[a:b]'' = ''a:b'' \<and>
   lscp_client_query (Some ex_client) (''GET CHANNELS'' @ CRLF)
       (ex_world [Recv (Some (''a:b'' @ CRLF))]) =
     (LSCP_OK, Some (ex_client\<lparr>pszResult := Some ''a:b'', iErrno := 0\<rparr>),
      (ex_world [])\<lparr>tcp_sent := [''GET CHANNELS'' @ CRLF]\<rparr>) \<and>
   lscp_client_query (Some ex_client) (''ADD CHANNEL'' @ CRLF)
       (ex_world [Recv (Some (''OK[42]'' @ CRLF))]) =
     (LSCP_OK, Some (ex_client\<lparr>pszResult := Some ''42'', iErrno := 0\<rparr>),
      (ex_world [])\<lparr>tcp_sent := [''ADD CHANNEL'' @ CRLF]\<rparr>)"
  by (simp add: bracketed_payload_def ex_world_def lscp_client_query_def lscp_client_call_def
      lscp_client_set_result_def c_string_defs)

subsection \<open>Unquoting\<close>

lemma takeWhile_drop:
  "n \<le> length (takeWhile P xs) \<Longrightarrow> takeWhile P (drop n xs) = drop n (takeWhile P xs)"
  by (induction xs arbitrary: n) (auto simp: drop_Cons split: nat.splits)

lemma cstr_drop:
  assumes "n \<le> length (cstr b)"
  shows "cstr (drop n b) = drop n (cstr b)"
  using assms unfolding cstr_def by (rule takeWhile_drop)

lemma peek_cstr:
  assumes "i \<le> length (cstr b)"
  shows "peek b i = (if i < length (cstr b) then cstr b ! i else NUL)"
proof (cases "i < length (cstr b)")
  case True
  then have "cstr b ! i = b ! i"
    unfolding cstr_def by (rule takeWhile_nth)
  moreover have "i < length b"
    using True length_takeWhile_le [of "\<lambda>c. c \<noteq> NUL" b] by (simp add: cstr_def)
  ultimately show ?thesis
    using True by (simp add: peek_def)
next
  case False
  with assms have i: "i = length (takeWhile (\<lambda>c. c \<noteq> NUL) b)"
    by (simp add: cstr_def)
  have "peek b i = NUL"
  proof (cases "i < length b")
    case True
    then have "\<not> (b ! i \<noteq> NUL)"
      unfolding i by (rule nth_length_takeWhile)
    with True show ?thesis by (simp add: peek_def)
  next
    case False
    then show ?thesis by (simp add: peek_def)
  qed
  with False show ?thesis by simp
qed

lemma unquote_bare:
  assumes "\<forall>r. dropWhile isspace (cstr b) \<noteq> CHR 0x22 # r \<and>
               dropWhile isspace (cstr b) \<noteq> CHR 0x27 # r"
  shows "(case lscp_unquote b 0 dup of (b', psz, ppsz) \<Rightarrow> cstr_at b' psz) =
           dropWhile isspace (cstr b)"
proof -
  let ?s = "cstr b"
  let ?n = "length (takeWhile isspace ?s)"
  have n: "?n \<le> length ?s"
    by (rule length_takeWhile_le)
  have skip: "skip_space b 0 = ?n"
    by (simp add: skip_space_def cstr_at_def)
  have d: "dropWhile isspace ?s = drop ?n ?s"
    by (rule dropWhile_eq_drop)
  have pk: "peek b ?n \<noteq> CHR 0x22 \<and> peek b ?n \<noteq> CHR 0x27"
  proof (cases "?n < length ?s")
    case True
    then have eq: "dropWhile isspace ?s = ?s ! ?n # drop (Suc ?n) ?s"
      using d by (simp add: Cons_nth_drop_Suc)
    have "?s ! ?n \<noteq> CHR 0x22 \<and> ?s ! ?n \<noteq> CHR 0x27"
      using assms [rule_format, of "drop (Suc ?n) ?s"] unfolding eq by simp
    with True peek_cstr [OF n] show ?thesis by simp
  next
    case False
    with peek_cstr [OF n] show ?thesis by (simp add: NUL_def)
  qed
  have view: "cstr_at b ?n = dropWhile isspace ?s"
    using cstr_drop [OF n] d by (simp add: cstr_at_def)
  have idem: "cstr (cstr x) = cstr x" for x
    by (simp add: cstr_def)
  have idem2: "cstr (dropWhile isspace ?s) = dropWhile isspace ?s"
    using idem [of "drop ?n b"] view by (simp add: cstr_at_def)
  show ?thesis
    using pk view
    by (simp add: lscp_unquote_def skip Let_def cstr_at_def idem2)
qed

lemma back_space_self: "back_space b lo lo = lo"
  by (cases lo) auto

lemma back_space_rtrim:
  "back_space (pre @ xs @ post) (length pre) (length pre + length xs) =
     length pre + length (rev (dropWhile isspace (rev xs)))"
proof (induction xs arbitrary: post rule: rev_induct)
  case Nil
  show ?case by (simp add: back_space_self)
next
  case (snoc x xs)
  have pk: "peek (pre @ (xs @ [x]) @ post) (length pre + length xs) = x"
    by (simp add: peek_def nth_append)
  have ih: "back_space (pre @ (xs @ [x]) @ post) (length pre) (length pre + length xs) =
              length pre + length (rev (dropWhile isspace (rev xs)))"
    using snoc [of "x # post"] by simp
  have "back_space (pre @ (xs @ [x]) @ post) (length pre) (Suc (length pre + length xs)) =
          (if isspace x then length pre + length (rev (dropWhile isspace (rev xs)))
           else Suc (length pre + length xs))"
    using pk ih by simp
  then show ?case by simp
qed

lemma takeWhile_stop: "\<not> P q \<Longrightarrow> takeWhile P (xs @ q # ys) = takeWhile P xs"
  by (induction xs) auto

lemma cstr_append_Cons:
  assumes "NUL \<notin> set xs"
  shows "cstr (xs @ ys) = xs @ cstr ys"
  using assms by (induction xs) (auto simp: cstr_def)

lemma unquote_core:
  fixes pre li post :: string
  assumes li: "NUL \<notin> set li" "q \<notin> set li" and q: "q \<noteq> NUL"
  defines "b1 \<equiv> pre @ li @ q # post"
  shows "skip_to b1 (length pre) (\<lambda>c. c = q) = length pre + length li"
    and "peek b1 (length pre + length li) = q"
    and "cstr_at (b1[back_space b1 (length pre) (length pre + length li) := NUL]) (length pre) =
           rev (dropWhile isspace (rev li))"
proof -
  have view: "cstr_at b1 (length pre) = li @ q # cstr post"
    using li(1) q cstr_append_Cons [of "li @ [q]" post]
    by (simp add: cstr_at_def b1_def)
  have "takeWhile (\<lambda>c. \<not> c = q) (li @ q # cstr post) = li"
    using li(2) by (induction li) auto
  then show "skip_to b1 (length pre) (\<lambda>c. c = q) = length pre + length li"
    by (simp add: skip_to_def view)
  show "peek b1 (length pre + length li) = q"
    by (simp add: peek_def b1_def nth_append)
  let ?rl = "rev (dropWhile isspace (rev li))"
  let ?sp = "rev (takeWhile isspace (rev li))"
  have split: "li = ?rl @ ?sp"
    using takeWhile_dropWhile_id [of isspace "rev li"]
    by (metis rev_append rev_rev_ident)
  have bs: "back_space b1 (length pre) (length pre + length li) = length pre + length ?rl"
    unfolding b1_def by (rule back_space_rtrim)
  obtain y ys where tail: "?sp @ q # post = y # ys"
    by (cases "?sp @ q # post") auto
  have "b1 = pre @ ?rl @ (?sp @ q # post)"
    using split by (simp add: b1_def)
  then have "b1[length pre + length ?rl := NUL] = pre @ ?rl @ NUL # ys"
    by (simp add: tail list_update_append)
  moreover have "NUL \<notin> set ?rl"
    using li(1) split by (metis Un_iff set_append)
  ultimately show "cstr_at (b1[back_space b1 (length pre) (length pre + length li) := NUL])
      (length pre) = ?rl"
    unfolding bs
    using cstr_append_Cons [of ?rl "NUL # ys"]
    by (simp add: cstr_at_def cstr_def)
qed

lemma quote_not_space: "q = CHR 0x22 \<or> q = CHR 0x27 \<Longrightarrow> \<not> isspace q"
  by (auto simp: isspace_def)

lemma quote_not_NUL: "q = CHR 0x22 \<or> q = CHR 0x27 \<Longrightarrow> q \<noteq> NUL"
  by (auto simp: NUL_def)

lemma spaces_not_NUL: "\<forall>ch\<in>set ws. isspace ch \<Longrightarrow> NUL \<notin> set ws"
proof
  assume "\<forall>ch\<in>set ws. isspace ch" and "NUL \<in> set ws"
  then have "isspace NUL" by blast
  then show False by (simp add: isspace_def NUL_def)
qed

lemma unquote_quoted:
  assumes ws: "\<forall>ch\<in>set ws. isspace ch"
    and q: "q = CHR 0x22 \<or> q = CHR 0x27"
    and inner: "q \<notin> set inner" "NUL \<notin> set inner"
  shows "(case lscp_unquote (ws @ q # inner @ q # rest) 0 dup of
            (b', psz, ppsz) \<Rightarrow> cstr_at b' psz) =
           rev (dropWhile isspace (rev (dropWhile isspace inner)))"
proof -
  define b where "b = ws @ q # inner @ q # rest"
  define ti where "ti = takeWhile isspace inner"
  define li where "li = dropWhile isspace inner"
  define P1 where "P1 = Suc (length ws + length ti)"
  define B1 where "B1 = cstr_at b P1"
  have qs: "\<not> isspace q"
    using q by (rule quote_not_space)
  have qn: "q \<noteq> NUL"
    using q by (rule quote_not_NUL)
  have wsn: "NUL \<notin> set ws"
    using ws by (rule spaces_not_NUL)
  have inner_eq: "inner = ti @ li"
    by (simp add: ti_def li_def)
  have lin: "NUL \<notin> set li" "q \<notin> set li"
    using inner by (auto simp: li_def dest: set_dropWhileD)
  have tin: "NUL \<notin> set ti"
    using inner by (auto simp: ti_def dest: set_takeWhileD)
  have "cstr b = ws @ cstr (q # inner @ q # rest)"
    unfolding b_def using wsn by (rule cstr_append_Cons)
  then have "cstr b = ws @ q # cstr (inner @ q # rest)"
    using qn by (simp add: cstr_def)
  then have "takeWhile isspace (cstr b) = ws"
    using ws qs by (simp add: takeWhile_append2)
  then have skip0: "skip_space b 0 = length ws"
    by (simp add: skip_space_def cstr_at_def)
  have pk0: "peek b (length ws) = q"
    by (simp add: peek_def b_def nth_append)
  have "cstr_at b (Suc (length ws)) = cstr (inner @ q # rest)"
    by (simp add: cstr_at_def b_def)
  also have "\<dots> = inner @ cstr (q # rest)"
    using inner(2) by (rule cstr_append_Cons)
  also have "\<dots> = inner @ q # cstr rest"
    using qn by (simp add: cstr_def)
  finally have "takeWhile isspace (cstr_at b (Suc (length ws))) = ti"
    using qs by (simp add: takeWhile_stop ti_def)
  then have skip1: "skip_space b (Suc (length ws)) = P1"
    by (simp add: skip_space_def P1_def)
  have shape: "b = (ws @ q # ti) @ li @ q # rest"
    by (simp add: b_def inner_eq)
  have len: "length (ws @ q # ti) = P1"
    by (simp add: P1_def)
  have F: "skip_to b P1 (\<lambda>c. c = q) = P1 + length li"
    "peek b (P1 + length li) = q"
    "cstr_at (b[back_space b P1 (P1 + length li) := NUL]) P1 =
       rev (dropWhile isspace (rev li))"
    using unquote_core [OF lin qn, of "ws @ q # ti" rest]
    unfolding shape [symmetric] len by simp_all
  have "B1 = cstr (li @ q # rest)"
    unfolding B1_def cstr_at_def shape len [symmetric] by simp
  also have "\<dots> = li @ cstr (q # rest)"
    using lin(1) by (rule cstr_append_Cons)
  finally have B1: "B1 = [] @ li @ q # cstr rest"
    using qn by (simp add: cstr_def)
  have T: "skip_to B1 0 (\<lambda>c. c = q) = length li"
    "peek B1 (length li) = q"
    "cstr_at (B1[back_space B1 0 (length li) := NUL]) 0 = rev (dropWhile isspace (rev li))"
    using unquote_core [OF lin qn, of "[]" "cstr rest"]
    unfolding B1 [symmetric] by simp_all
  have "(case lscp_unquote b 0 dup of (b', psz, ppsz) \<Rightarrow> cstr_at b' psz) =
          rev (dropWhile isspace (rev li))"
  proof (cases dup)
    case True
    then show ?thesis
      by (simp add: lscp_unquote_def Let_def skip0 pk0 skip1 B1_def [symmetric] T q qn)
  next
    case False
    then show ?thesis
      by (simp add: lscp_unquote_def Let_def skip0 pk0 skip1 F q qn)
  qed
  then show ?thesis
    unfolding b_def li_def .
qed

text \<open>
  C8, amended. Unquoting a text whose first character after leading white space is not a
  quote character yields the text without its leading white space; white space at its
  end stays. Unquoting a text that, after leading white space, holds a quoted part
  yields the content between the quotes without the white space at its two ends; the
  characters in between, commas too, are kept, and what follows the closing quote is
  left out.
\<close>

theorem unquote_text:
  "((\<forall>r. dropWhile isspace (cstr b) \<noteq> CHR 0x22 # r \<and>
         dropWhile isspace (cstr b) \<noteq> CHR 0x27 # r) \<longrightarrow>
      (case lscp_unquote b 0 dup of (b', psz, ppsz) \<Rightarrow> cstr_at b' psz) =
        dropWhile isspace (cstr b)) \<and>
   ((\<forall>ch\<in>set ws. isspace ch) \<and> (q = CHR 0x22 \<or> q = CHR 0x27) \<and>
    q \<notin> set inner \<and> NUL \<notin> set inner \<longrightarrow>
      (case lscp_unquote (ws @ q # inner @ q # rest) 0 dup of
         (b', psz, ppsz) \<Rightarrow> cstr_at b' psz) =
        rev (dropWhile isspace (rev (dropWhile isspace inner))))"
  using unquote_bare [of b dup] unquote_quoted [of ws q inner rest dup]
  by blast

text \<open>The bare text \<open>foo\<close> and the quoted text \<open>Hello, World\<close>, each between two blanks.\<close>

theorem unquote_text_witness:
  "(\<forall>r. dropWhile isspace (cstr ''  foo  '') \<noteq> CHR 0x22 # r \<and>
        dropWhile isspace (cstr ''  foo  '') \<noteq> CHR 0x27 # r) \<and>
   (case lscp_unquote ''  foo  '' 0 True of (b', psz, ppsz) \<Rightarrow> cstr_at b' psz) = ''foo  '' \<and>
   list_all isspace ''  '' \<and>
   CHR 0x22 \<notin> set ''Hello, World'' \<and> NUL \<notin> set ''Hello, World'' \<and>
   (case lscp_unquote (''  '' @ CHR 0x22 # ''Hello, World'' @ CHR 0x22 # ''  '') 0 True of
      (b', psz, ppsz) \<Rightarrow> cstr_at b' psz) = ''Hello, World''"
proof -
  have v: "dropWhile isspace (cstr ''  foo  '') = ''foo  ''"
    by (simp add: cstr_def NUL_def isspace_def)
  have h1: "\<forall>r. dropWhile isspace (cstr ''  foo  '') \<noteq> CHR 0x22 # r \<and>
        dropWhile isspace (cstr ''  foo  '') \<noteq> CHR 0x27 # r"
    unfolding v by simp
  have h2: "\<forall>ch\<in>set ''  ''. isspace ch"
    by (simp add: isspace_def)
  have h3: "CHR 0x22 \<notin> set ''Hello, World''" "NUL \<notin> set ''Hello, World''"
    by (simp_all add: NUL_def)
  have v2: "rev (dropWhile isspace (rev (dropWhile isspace ''Hello, World''))) = ''Hello, World''"
    by (simp add: isspace_def)
  show ?thesis
    using h1 h2 h3 v v2
      unquote_text [of "''  foo  ''" True "''  ''" "CHR 0x22" "''Hello, World''" "''  ''"]
    by simp
qed

text \<open>C8 as stated fails: unquoting \<open>foo\<close> between two blanks keeps the two blanks at the end.\<close>

theorem unquote_trailing_counterexample:
  "unquote_dup ''  foo  '' = ''foo  '' \<and> ''foo  '' \<noteq> ''foo''"
  by (simp add: unquote_dup_def lscp_unquote_def skip_space_def peek_def Let_def
      cstr_at_def cstr_def NUL_def isspace_def)

subsection \<open>Buffer fill\<close>

lemma array_write_in_bounds:
  assumes "0 \<le> i" and "i < iCount" and "iCount \<le> int (length arr)"
  shows "array_write arr i f = Inr (arr[nat i := f (arr ! nat i)])"
  using assms by (simp add: array_write_def)

lemma buffer_fill_loop_bounds:
  assumes "iCount \<le> int (length arr)" and "0 \<le> iStream"
  shows "\<exists>arr' n. buffer_fill_loop tok pch iStream iCount arr = Inr (arr', n) \<and>
           length arr' = length arr \<and> iStream \<le> n \<and> n \<le> max iStream iCount \<and>
           (\<forall>i. nat iCount \<le> i \<longrightarrow> arr' ! i = arr ! i)"
  using assms
proof (induction tok pch iStream iCount arr rule: buffer_fill_loop.induct)
  case (1 pszToken pch iStream iCount pBufferFill)
  note len = \<open>iCount \<le> int (length pBufferFill)\<close> and pos = \<open>0 \<le> iStream\<close>
  show ?case
  proof (cases pszToken)
    case None
    then show ?thesis
      by (subst buffer_fill_loop.simps) simp
  next
    case (Some tok)
    show ?thesis
    proof (cases "iStream < iCount")
      case False
      with Some show ?thesis
        by (subst buffer_fill_loop.simps) simp
    next
      case lt: True
      show ?thesis
      proof (cases "tok = []")
        case True
        show ?thesis
        proof (cases "lscp_strtok pch ''[]%,''")
          case None
          from "1.IH"(3) [OF Some _ _ None len pos] lt True
          obtain arr' n where
            "buffer_fill_loop None pch iStream iCount pBufferFill = Inr (arr', n)"
            "length arr' = length pBufferFill" "iStream \<le> n" "n \<le> max iStream iCount"
            "\<forall>i. nat iCount \<le> i \<longrightarrow> arr' ! i = pBufferFill ! i"
            by auto
          then show ?thesis
            using Some lt True None
            by (subst buffer_fill_loop.simps) simp
        next
          case Some2: (Some x)
          obtain tok1 pch1 where x: "x = (tok1, pch1)" by (cases x)
          from "1.IH"(4) [OF Some _ _ Some2 x [symmetric] len pos] lt True
          obtain arr' n where
            "buffer_fill_loop (Some tok1) pch1 iStream iCount pBufferFill = Inr (arr', n)"
            "length arr' = length pBufferFill" "iStream \<le> n" "n \<le> max iStream iCount"
            "\<forall>i. nat iCount \<le> i \<longrightarrow> arr' ! i = pBufferFill ! i"
            by auto
          then show ?thesis
            using Some lt True Some2 x
            by (subst buffer_fill_loop.simps) simp
        qed
      next
        case False
        let ?f1 = "stream_id_update (\<lambda>_. Some (atol tok mod 2 ^ 32))"
        define arr1 where "arr1 = pBufferFill[nat iStream := ?f1 (pBufferFill ! nat iStream)]"
        have w1: "array_write pBufferFill iStream ?f1 = Inr arr1"
          unfolding arr1_def using pos lt len by (rule array_write_in_bounds)
        have len1: "length arr1 = length pBufferFill"
          by (simp add: arr1_def)
        have keep1: "\<forall>i. nat iCount \<le> i \<longrightarrow> arr1 ! i = pBufferFill ! i"
          using lt pos by (auto simp: arr1_def)
        show ?thesis
        proof (cases "lscp_strtok pch ''[]%,''")
          case None
          then show ?thesis
            using Some lt False w1 len1 keep1
            by (subst buffer_fill_loop.simps) simp
        next
          case St1: (Some x)
          obtain tok1 pch1 where x: "x = (tok1, pch1)" by (cases x)
          let ?f2 = "stream_usage_update (\<lambda>_. Some (atol tok1 mod 2 ^ 64))"
          define arr2 where "arr2 = arr1[nat iStream := ?f2 (arr1 ! nat iStream)]"
          have w2: "array_write arr1 iStream ?f2 = Inr arr2"
            unfolding arr2_def using pos lt len len1
            by (intro array_write_in_bounds [where iCount = iCount]) simp_all
          have len2: "length arr2 = length pBufferFill"
            by (simp add: arr2_def len1)
          have keep2: "\<forall>i. nat iCount \<le> i \<longrightarrow> arr2 ! i = pBufferFill ! i"
            using lt pos keep1 by (auto simp: arr2_def)
          have len2': "iCount \<le> int (length arr2)"
            using len len2 by simp
          have pos2: "0 \<le> iStream + 1"
            using pos by simp
          have nn: "\<not> \<not> iStream < iCount"
            using lt by simp
          show ?thesis
          proof (cases "lscp_strtok pch1 ''[]%,''")
            case None
            from "1.IH"(1) [OF Some nn False w1 St1 x [symmetric] w2 None len2' pos2]
            obtain arr' n where r:
              "buffer_fill_loop None pch1 (iStream + 1) iCount arr2 = Inr (arr', n)"
              "length arr' = length arr2" "iStream + 1 \<le> n" "n \<le> max (iStream + 1) iCount"
              "\<forall>i. nat iCount \<le> i \<longrightarrow> arr' ! i = arr2 ! i"
              by auto
            have "buffer_fill_loop pszToken pch iStream iCount pBufferFill = Inr (arr', n)"
              using Some lt False w1 St1 x w2 None r(1)
              by (subst buffer_fill_loop.simps) simp
            then show ?thesis
              using r len2 keep2 lt by auto
          next
            case St2: (Some y)
            obtain tok2 pch2 where y: "y = (tok2, pch2)" by (cases y)
            from "1.IH"(2) [OF Some nn False w1 St1 x [symmetric] w2 St2 y [symmetric] len2' pos2]
            obtain arr' n where r:
              "buffer_fill_loop (Some tok2) pch2 (iStream + 1) iCount arr2 = Inr (arr', n)"
              "length arr' = length arr2" "iStream + 1 \<le> n" "n \<le> max (iStream + 1) iCount"
              "\<forall>i. nat iCount \<le> i \<longrightarrow> arr' ! i = arr2 ! i"
              by auto
            have "buffer_fill_loop pszToken pch iStream iCount pBufferFill = Inr (arr', n)"
              using Some lt False w1 St1 x w2 St2 y r(1)
              by (subst buffer_fill_loop.simps) simp
            then show ?thesis
              using r len2 keep2 lt by auto
          qed
        qed
      qed
    qed
  qed
qed

lemma stream_count_frame:
  assumes "lscp_get_channel_stream_count (Some c) n w = Inr (k, pc, w1)"
  shows "\<exists>r e. pc = Some (c\<lparr>pszResult := r, iErrno := e\<rparr>) \<and>
           heap_next w1 = heap_next w \<and> heap_freed w1 = heap_freed w \<and>
           udp_sent w1 = udp_sent w"
proof (cases "n < 0")
  case True
  with assms have "pc = Some c" "w1 = w"
    by (simp_all add: lscp_get_channel_stream_count_def)
  moreover have "c = c\<lparr>pszResult := pszResult c, iErrno := iErrno c\<rparr>"
    by simp
  ultimately show ?thesis by metis
next
  case False
  let ?q = "''GET CHANNEL STREAM_COUNT '' @ show_int n @ CRLF"
  obtain ret pc1 w2 where q: "lscp_client_query (Some c) ?q w = (ret, pc1, w2)"
    by (cases "lscp_client_query (Some c) ?q w")
  from assms False q have "pc = pc1" "w1 = w2"
    by (auto simp: lscp_get_channel_stream_count_def split: if_splits option.splits)
  with query_frame [OF q] query_world [OF q] show ?thesis
    by auto
qed

lemma resolve_frame:
  assumes "resolve_stream_count c n w = Inr (k, pc, w1)"
  shows "\<exists>r e. pc = Some (c\<lparr>pszResult := r, iErrno := e\<rparr>) \<and>
           heap_next w1 = heap_next w \<and> heap_freed w1 = heap_freed w \<and>
           udp_sent w1 = udp_sent w"
proof (cases "iStreamCount c < 1")
  case True
  with assms have "lscp_get_channel_stream_count (Some c) n w = Inr (k, pc, w1)"
    by (simp add: resolve_stream_count_def)
  then show ?thesis
    by (rule stream_count_frame)
next
  case False
  with assms have "pc = Some c" "w1 = w"
    by (simp_all add: resolve_stream_count_def)
  moreover have "c = c\<lparr>pszResult := pszResult c, iErrno := iErrno c\<rparr>"
    by simp
  ultimately show ?thesis by metis
qed

lemma buffer_fill_query_frame:
  assumes "buffer_fill_query c u n w = Inr (ret, pc, w')"
  shows "\<exists>c'. pc = Some c' \<and> sessid c' = sessid c \<and> iStreamCount c' = iStreamCount c \<and>
           map_option fst (buffer_fill c') = map_option fst (buffer_fill c) \<and>
           (ret = None \<or> ret = map_option fst (buffer_fill c)) \<and>
           heap_next w' = heap_next w \<and> heap_freed w' = heap_freed w \<and>
           udp_sent w' = udp_sent w"
proof -
  let ?q = "''GET CHANNEL BUFFER_FILL '' @
            (if u = LSCP_USAGE_BYTES then ''BYTES'' else ''PERCENTAGE'') @ '' '' @
            show_int n @ CRLF"
  obtain st pc1 w1 where q: "lscp_client_query (Some c) ?q w = (st, pc1, w1)"
    by (cases "lscp_client_query (Some c) ?q w")
  from query_frame [OF q] obtain r e where pc1: "pc1 = Some (c\<lparr>pszResult := r, iErrno := e\<rparr>)"
    by blast
  have w1: "heap_next w1 = heap_next w" "heap_freed w1 = heap_freed w" "udp_sent w1 = udp_sent w"
    using query_world [OF q] by simp_all
  from assms q pc1 have "w' = w1 \<and> (\<exists>c'. pc = Some c' \<and> sessid c' = sessid c \<and>
      iStreamCount c' = iStreamCount c \<and>
      map_option fst (buffer_fill c') = map_option fst (buffer_fill c) \<and>
      (ret = None \<or> ret = map_option fst (buffer_fill c)))"
    by (auto simp: buffer_fill_query_def Let_def
        split: if_splits option.splits sum.splits prod.splits)
  with w1 show ?thesis by auto
qed

lemma buffer_fill_query_safe:
  assumes inv: "fill_fits c"
  shows "buffer_fill_query c u n w \<noteq> Inl OutOfBounds"
    and "buffer_fill_query c u n w = Inr (ret, Some c', w') \<Longrightarrow>
      fill_fits c' \<and>
      map_option (\<lambda>x. length (snd x)) (buffer_fill c') =
        map_option (\<lambda>x. length (snd x)) (buffer_fill c)"
proof -
  let ?q = "''GET CHANNEL BUFFER_FILL '' @
            (if u = LSCP_USAGE_BYTES then ''BYTES'' else ''PERCENTAGE'') @ '' '' @
            show_int n @ CRLF"
  obtain st pc1 w1 where q: "lscp_client_query (Some c) ?q w = (st, pc1, w1)"
    by (cases "lscp_client_query (Some c) ?q w")
  from query_frame [OF q] obtain r e where pc1: "pc1 = Some (c\<lparr>pszResult := r, iErrno := e\<rparr>)"
    by blast
  have loop: "\<exists>arr' k. buffer_fill_loop tok pch 0 (iStreamCount c) arr = Inr (arr', k) \<and>
                length arr' = length arr"
    if "buffer_fill c = Some (a, arr)" for tok pch a arr
  proof -
    from inv that have "iStreamCount c \<le> int (length arr)"
      by (simp add: fill_fits_def)
    from buffer_fill_loop_bounds [OF this, of 0 tok pch] show ?thesis
      by auto
  qed
  show "buffer_fill_query c u n w \<noteq> Inl OutOfBounds"
  proof (cases "buffer_fill c")
    case None
    with q pc1 show ?thesis
      by (auto simp: buffer_fill_query_def Let_def split: option.splits)
  next
    case (Some x)
    obtain a arr where x: "x = (a, arr)" by (cases x)
    show ?thesis
    proof (cases "st = LSCP_OK \<and> r \<noteq> None")
      case True
      then obtain res where r: "r = Some res" by auto
      from loop [of a arr "map_option fst (lscp_strtok res ''[]%,'')"
          "case lscp_strtok res ''[]%,'' of None \<Rightarrow> [] | Some (t, pch) \<Rightarrow> pch"] Some x
      obtain arr' k where
        "buffer_fill_loop (map_option fst (lscp_strtok res ''[]%,''))
           (case lscp_strtok res ''[]%,'' of None \<Rightarrow> [] | Some (t, pch) \<Rightarrow> pch)
           0 (iStreamCount c) arr = Inr (arr', k)"
        by auto
      with q pc1 Some x True r show ?thesis
        by (simp add: buffer_fill_query_def Let_def)
    next
      case False
      with q pc1 show ?thesis
        by (auto simp: buffer_fill_query_def Let_def split: option.splits)
    qed
  qed
  assume res: "buffer_fill_query c u n w = Inr (ret, Some c', w')"
  show "fill_fits c' \<and>
      map_option (\<lambda>x. length (snd x)) (buffer_fill c') =
        map_option (\<lambda>x. length (snd x)) (buffer_fill c)"
  proof (cases "buffer_fill c")
    case None
    with res q pc1 have "buffer_fill c' = None"
      by (auto simp: buffer_fill_query_def Let_def split: if_splits option.splits)
    with None show ?thesis by (simp add: fill_fits_def)
  next
    case (Some x)
    obtain a arr where x: "x = (a, arr)" by (cases x)
    from inv Some x have fits: "iStreamCount c \<le> int (length arr)"
      by (simp add: fill_fits_def)
    show ?thesis
    proof (cases "st = LSCP_OK \<and> r \<noteq> None")
      case True
      then obtain rtext where r: "r = Some rtext" by auto
      from loop [of a arr "map_option fst (lscp_strtok rtext ''[]%,'')"
          "case lscp_strtok rtext ''[]%,'' of None \<Rightarrow> [] | Some (t, pch) \<Rightarrow> pch"] Some x
      obtain arr' k where
        "buffer_fill_loop (map_option fst (lscp_strtok rtext ''[]%,''))
           (case lscp_strtok rtext ''[]%,'' of None \<Rightarrow> [] | Some (t, pch) \<Rightarrow> pch)
           0 (iStreamCount c) arr = Inr (arr', k)" and "length arr' = length arr"
        by auto
      with res q pc1 Some x True r fits show ?thesis
        by (auto simp: buffer_fill_query_def Let_def fill_fits_def)
    next
      case False
      with res q pc1 Some x fits show ?thesis
        by (auto simp: buffer_fill_query_def Let_def fill_fits_def split: if_splits option.splits)
    qed
  qed
qed

lemma realloc_fits:
  assumes "fill_fits c" and "1 \<le> k" and "buffer_fill_realloc c k w = (c2, w2)"
  shows "fill_fits c2"
  using assms
  by (auto simp: buffer_fill_realloc_def fill_fits_def split: if_splits)

lemma resolve_no_overrun: "resolve_stream_count c n w \<noteq> Inl OutOfBounds"
  by (auto simp: resolve_stream_count_def lscp_get_channel_stream_count_def
      split: prod.splits option.splits)

lemma get_buffer_fill_safe:
  assumes inv: "fill_fits c"
  shows "lscp_get_channel_buffer_fill (Some c) u n w \<noteq> Inl OutOfBounds"
    and "lscp_get_channel_buffer_fill (Some c) u n w = Inr (ret, Some c', w') \<Longrightarrow> fill_fits c'"
proof -
  have both: "lscp_get_channel_buffer_fill (Some c) u n w \<noteq> Inl OutOfBounds \<and>
      (lscp_get_channel_buffer_fill (Some c) u n w = Inr (ret, Some c', w') \<longrightarrow> fill_fits c')"
  proof (cases "n < 0")
    case True
    with inv show ?thesis
      by (auto simp: lscp_get_channel_buffer_fill_def)
  next
    case n: False
    show ?thesis
    proof (cases "resolve_stream_count c n w")
      case (Inl f)
      with resolve_no_overrun [of c n w] n show ?thesis
        by (simp add: lscp_get_channel_buffer_fill_def)
    next
      case (Inr x)
      obtain k pc1 w1 where x: "x = (k, pc1, w1)" by (cases x)
      from resolve_frame [OF Inr [unfolded x]] obtain r e
        where pc1: "pc1 = Some (c\<lparr>pszResult := r, iErrno := e\<rparr>)" by blast
      let ?c1 = "c\<lparr>pszResult := r, iErrno := e\<rparr>"
      have fits1: "fill_fits ?c1"
        using inv by (auto simp: fill_fits_def split: option.splits)
      show ?thesis
      proof (cases "k < 1")
        case True
        with n Inr x pc1 fits1 show ?thesis
          by (auto simp: lscp_get_channel_buffer_fill_def)
      next
        case False
        obtain c2 w2 where re: "buffer_fill_realloc ?c1 k w1 = (c2, w2)"
          by (cases "buffer_fill_realloc ?c1 k w1")
        from False have "1 \<le> k" by simp
        with fits1 re have fits2: "fill_fits c2"
          using realloc_fits by blast
        have eq: "lscp_get_channel_buffer_fill (Some c) u n w = buffer_fill_query c2 u n w2"
          using n Inr x pc1 False re by (simp add: lscp_get_channel_buffer_fill_def)
        show ?thesis
          unfolding eq using buffer_fill_query_safe [OF fits2] by blast
      qed
    qed
  qed
  from both show "lscp_get_channel_buffer_fill (Some c) u n w \<noteq> Inl OutOfBounds"
    by simp
  assume "lscp_get_channel_buffer_fill (Some c) u n w = Inr (ret, Some c', w')"
  with both show "fill_fits c'"
    by simp
qed

lemma show_int_0: "show_int 0 = ''0''"
  by (simp add: show_int_def show_nat.simps)

lemma ex_fill_first:
  "lscp_get_channel_buffer_fill (Some ex_client) LSCP_USAGE_BYTES 0 ex_fill_world =
     Inr (Some 0, Some ex_filled_client, ex_filled_world)"
  by (simp add: lscp_get_channel_buffer_fill_def resolve_stream_count_def
      lscp_get_channel_stream_count_def buffer_fill_realloc_def buffer_fill_query_def
      lscp_client_query_def lscp_client_call_def lscp_client_set_result_def
      lscp_client_get_result_def ex_fill_world_def ex_world_def ex_client_def
      lscp_client_create_def ex_filled_client_def ex_filled_world_def show_int_0
      buffer_fill_loop.simps array_write_def isdigit_def Let_def numeral_2_eq_2
      c_string_defs)

text \<open>
  C9. The parsing loop of the buffer fill query, started at \<open>iStream\<close> on an array with
  room for \<open>iCount\<close> entries, never writes outside the array: it ends without a fault,
  leaves the length of the array and every entry from index \<open>iCount\<close> on as they were,
  and leaves \<open>iStream\<close> at most at \<open>iCount\<close>, whatever the tokens are. Hence
  \<open>lscp_get_channel_buffer_fill\<close>, on a descriptor whose array has room for
  \<open>iStreamCount\<close> entries, never writes outside the array and returns such a descriptor.
\<close>

theorem buffer_fill_writes_in_bounds:
  "(iCount \<le> int (length arr) \<and> 0 \<le> iStream \<longrightarrow>
      (\<exists>arr' k. buffer_fill_loop tok pch iStream iCount arr = Inr (arr', k) \<and>
         length arr' = length arr \<and> iStream \<le> k \<and> k \<le> max iStream iCount \<and>
         (\<forall>i. nat iCount \<le> i \<longrightarrow> arr' ! i = arr ! i))) \<and>
   (fill_fits c \<longrightarrow>
      lscp_get_channel_buffer_fill (Some c) u n w \<noteq> Inl OutOfBounds \<and>
      (\<forall>ret c' w'. lscp_get_channel_buffer_fill (Some c) u n w = Inr (ret, Some c', w') \<longrightarrow>
         fill_fits c'))"
  using buffer_fill_loop_bounds [of iCount arr iStream tok pch]
    get_buffer_fill_safe [of c u n w]
  by blast

text \<open>
  Three pairs for an array of two entries: the third pair is not written. And the first
  buffer fill call of a fresh session.
\<close>

theorem buffer_fill_writes_in_bounds_witness:
  "(2::int) \<le> int (length (replicate 2 \<lparr>stream_id = None, stream_usage = None\<rparr>)) \<and>
   (0::int) \<le> 0 \<and>
   buffer_fill_loop (Some ''1'') ''10,[2]20,[3]30'' 0 2
       (replicate 2 \<lparr>stream_id = None, stream_usage = None\<rparr>) =
     Inr ([\<lparr>stream_id = Some 1, stream_usage = Some 10\<rparr>,
           \<lparr>stream_id = Some 2, stream_usage = Some 20\<rparr>], 2) \<and>
   (\<exists>arr' k. buffer_fill_loop (Some ''1'') ''10,[2]20,[3]30'' 0 2
                 (replicate 2 \<lparr>stream_id = None, stream_usage = None\<rparr>) = Inr (arr', k) \<and>
              length arr' = 2 \<and> k \<le> 2) \<and>
   fill_fits ex_client \<and>
   lscp_get_channel_buffer_fill (Some ex_client) LSCP_USAGE_BYTES 0 ex_fill_world \<noteq>
     Inl OutOfBounds \<and>
   lscp_get_channel_buffer_fill (Some ex_client) LSCP_USAGE_BYTES 0 ex_fill_world =
     Inr (Some 0, Some ex_filled_client, ex_filled_world) \<and>
   fill_fits ex_filled_client"
proof -
  let ?arr = "replicate 2 \<lparr>stream_id = None, stream_usage = None\<rparr>"
  have h1: "(2::int) \<le> int (length ?arr)" and h2: "(0::int) \<le> 0"
    by simp_all
  have v: "buffer_fill_loop (Some ''1'') ''10,[2]20,[3]30'' 0 2 ?arr =
     Inr ([\<lparr>stream_id = Some 1, stream_usage = Some 10\<rparr>,
           \<lparr>stream_id = Some 2, stream_usage = Some 20\<rparr>], 2)"
    by (simp add: buffer_fill_loop.simps array_write_def isdigit_def numeral_2_eq_2
        c_string_defs)
  have h3: "fill_fits ex_client"
    by (simp add: fill_fits_def ex_client_def lscp_client_create_def)
  show ?thesis
    using h1 h2 h3 v ex_fill_first
      buffer_fill_writes_in_bounds [of 2 ?arr 0 "Some ''1''" "''10,[2]20,[3]30''"
        ex_client LSCP_USAGE_BYTES 0 ex_fill_world]
    by auto
qed

lemma query_sent:
  assumes "lscp_client_query (Some c) (x # q) w = (ret, pc, w1)"
  shows "tcp_sent w1 = tcp_sent w @ [x # q] \<or>
         (\<exists>evs. tcp_replies w = SendFails # evs \<and> tcp_sent w1 = tcp_sent w)"
proof -
  obtain res w2 where call: "lscp_client_call (Some c) (x # q) w = (res, w2)"
    by (cases "lscp_client_call (Some c) (x # q) w")
  with assms have "w1 = w2"
    by (auto simp: lscp_client_query_def Let_def split: prod.splits)
  moreover from call have "tcp_sent w2 = tcp_sent w @ [x # q] \<or>
         (\<exists>evs. tcp_replies w = SendFails # evs \<and> tcp_sent w2 = tcp_sent w)"
    by (auto simp: lscp_client_call_def Let_def
        split: list.splits net_event.splits option.splits if_splits)
  ultimately show ?thesis by simp
qed

text \<open>
  What a buffer fill query on a valid channel allocates. The array is freed and allocated
  anew, with the resolved stream count as its length, if and only if the resolved count
  is at least 1 and differs from the cached count; otherwise the array, if any, is the
  same allocation as before, and the cached count stays. When the resolved count is
  below 1 the function returns NULL at that point. When the cached count is below 1 the
  count is resolved by a stream count query, which is the first request sent; when it is
  at least 1 it is the resolved count and nothing is sent for it.
\<close>

lemma buffer_fill_reallocation:
  assumes n: "0 \<le> n"
    and res: "resolve_stream_count c n w = Inr (k, Some c1, w1)"
    and out: "lscp_get_channel_buffer_fill (Some c) u n w = Inr (ret, Some c', w')"
  shows "(if 1 \<le> k \<and> k \<noteq> iStreamCount c
          then heap_next w' = Suc (heap_next w) \<and>
               heap_freed w' =
                 heap_freed w @ (case buffer_fill c of None \<Rightarrow> [] | Some (a, arr) \<Rightarrow> [a]) \<and>
               (\<exists>arr. buffer_fill c' = Some (heap_next w, arr) \<and> length arr = nat k) \<and>
               iStreamCount c' = k
          else heap_next w' = heap_next w \<and> heap_freed w' = heap_freed w \<and>
               map_option fst (buffer_fill c') = map_option fst (buffer_fill c) \<and>
               iStreamCount c' = iStreamCount c) \<and>
         (k < 1 \<longrightarrow> ret = None \<and> c' = c1 \<and> w' = w1) \<and>
         (iStreamCount c < 1 \<longrightarrow>
            lscp_get_channel_stream_count (Some c) n w = Inr (k, Some c1, w1) \<and>
            (tcp_sent w1 = tcp_sent w @ [''GET CHANNEL STREAM_COUNT '' @ show_int n @ CRLF] \<or>
             (\<exists>evs. tcp_replies w = SendFails # evs \<and> tcp_sent w1 = tcp_sent w))) \<and>
         (1 \<le> iStreamCount c \<longrightarrow> k = iStreamCount c \<and> c1 = c \<and> w1 = w)"
proof (intro conjI)
  from resolve_frame [OF res] obtain r e where
    c1: "c1 = c\<lparr>pszResult := r, iErrno := e\<rparr>"
    and w1: "heap_next w1 = heap_next w" "heap_freed w1 = heap_freed w"
    by auto
  show "k < 1 \<longrightarrow> ret = None \<and> c' = c1 \<and> w' = w1"
    using n res out by (auto simp: lscp_get_channel_buffer_fill_def)
  show "1 \<le> iStreamCount c \<longrightarrow> k = iStreamCount c \<and> c1 = c \<and> w1 = w"
    using res by (auto simp: resolve_stream_count_def)
  show "iStreamCount c < 1 \<longrightarrow>
            lscp_get_channel_stream_count (Some c) n w = Inr (k, Some c1, w1) \<and>
            (tcp_sent w1 = tcp_sent w @ [''GET CHANNEL STREAM_COUNT '' @ show_int n @ CRLF] \<or>
             (\<exists>evs. tcp_replies w = SendFails # evs \<and> tcp_sent w1 = tcp_sent w))"
  proof
    assume lt: "iStreamCount c < 1"
    with res have sc: "lscp_get_channel_stream_count (Some c) n w = Inr (k, Some c1, w1)"
      by (simp add: resolve_stream_count_def)
    let ?q = "''GET CHANNEL STREAM_COUNT '' @ show_int n @ CRLF"
    obtain st pc w2 where q: "lscp_client_query (Some c) ?q w = (st, pc, w2)"
      by (cases "lscp_client_query (Some c) ?q w")
    from sc n q have "w1 = w2"
      by (auto simp: lscp_get_channel_stream_count_def split: if_splits option.splits)
    moreover have "tcp_sent w2 = tcp_sent w @ [?q] \<or>
         (\<exists>evs. tcp_replies w = SendFails # evs \<and> tcp_sent w2 = tcp_sent w)"
      using query_sent [of c "CHR ''G''" "''ET CHANNEL STREAM_COUNT '' @ show_int n @ CRLF" w st pc w2]
        q by simp
    ultimately show "lscp_get_channel_stream_count (Some c) n w = Inr (k, Some c1, w1) \<and>
            (tcp_sent w1 = tcp_sent w @ [?q] \<or>
             (\<exists>evs. tcp_replies w = SendFails # evs \<and> tcp_sent w1 = tcp_sent w))"
      using sc by simp
  qed
  show "if 1 \<le> k \<and> k \<noteq> iStreamCount c
          then heap_next w' = Suc (heap_next w) \<and>
               heap_freed w' =
                 heap_freed w @ (case buffer_fill c of None \<Rightarrow> [] | Some (a, arr) \<Rightarrow> [a]) \<and>
               (\<exists>arr. buffer_fill c' = Some (heap_next w, arr) \<and> length arr = nat k) \<and>
               iStreamCount c' = k
          else heap_next w' = heap_next w \<and> heap_freed w' = heap_freed w \<and>
               map_option fst (buffer_fill c') = map_option fst (buffer_fill c) \<and>
               iStreamCount c' = iStreamCount c"
  proof (cases "k < 1")
    case True
    with n res out have "c' = c1" "w' = w1"
      by (auto simp: lscp_get_channel_buffer_fill_def)
    with True c1 w1 show ?thesis by simp
  next
    case False
    obtain c2 w2 where re: "buffer_fill_realloc c1 k w1 = (c2, w2)"
      by (cases "buffer_fill_realloc c1 k w1")
    have q: "buffer_fill_query c2 u n w2 = Inr (ret, Some c', w')"
      using n res out False re by (simp add: lscp_get_channel_buffer_fill_def)
    from buffer_fill_query_frame [OF q] have fr:
      "iStreamCount c' = iStreamCount c2"
      "map_option fst (buffer_fill c') = map_option fst (buffer_fill c2)"
      "heap_next w' = heap_next w2" "heap_freed w' = heap_freed w2"
      by auto
    show ?thesis
    proof (cases "k = iStreamCount c")
      case True
      with re c1 have "c2 = c1" "w2 = w1"
        by (simp_all add: buffer_fill_realloc_def)
      with True fr c1 w1 show ?thesis by simp
    next
      case ne: False
      with re c1 have c2: "buffer_fill c2 = Some (heap_next w1,
            replicate (nat k) \<lparr>stream_id = None, stream_usage = None\<rparr>)"
          "iStreamCount c2 = k"
        and w2: "heap_next w2 = Suc (heap_next w1)"
          "heap_freed w2 =
             (case buffer_fill c of None \<Rightarrow> heap_freed w1 | Some (a, arr) \<Rightarrow> heap_freed w1 @ [a])"
        by (auto simp: buffer_fill_realloc_def)
      have fits: "fill_fits c2"
        using c2 False by (simp add: fill_fits_def)
      from buffer_fill_query_safe(2) [OF fits q] c2
      have len: "map_option (\<lambda>x. length (snd x)) (buffer_fill c') = Some (nat k)"
        by simp
      from fr(2) c2 have id: "map_option fst (buffer_fill c') = Some (heap_next w1)"
        by simp
      from len id obtain arr where "buffer_fill c' = Some (heap_next w1, arr)" "length arr = nat k"
        by (cases "buffer_fill c'") auto
      with False ne fr c2 w2 w1 show ?thesis
        by (auto split: option.splits)
    qed
  qed
qed





subsection \<open>The bound session-id\<close>

lemma query_sessid:
  assumes "lscp_client_query (Some c) q w = (ret, pc, w')"
  shows "\<exists>c'. pc = Some c' \<and> sessid c' = sessid c"
  using query_frame [OF assms] by auto

lemma driver_info_query_sessid:
  assumes "lscp_driver_info_query (Some c) m q w = Inr (r, pc, w')"
  shows "\<exists>c'. pc = Some c' \<and> sessid c' = sessid c"
proof -
  obtain ret pc1 w1 where q: "lscp_client_query (Some c) q w = (ret, pc1, w1)"
    by (cases "lscp_client_query (Some c) q w")
  from query_sessid [OF q] obtain c1 where "pc1 = Some c1" "sessid c1 = sessid c"
    by blast
  with assms q show ?thesis
    by (cases m)
      (auto simp: lscp_driver_info_query_def Let_def split: if_splits option.splits)
qed

lemma engine_info_sessid:
  assumes "lscp_get_engine_info (Some c) name w = Inr (r, pc, w')"
  shows "\<exists>c'. pc = Some c' \<and> sessid c' = sessid c"
proof (cases name)
  case None
  with assms show ?thesis by (auto simp: lscp_get_engine_info_def)
next
  case (Some eng)
  let ?q = "''GET ENGINE INFO '' @ eng @ CRLF"
  obtain ret pc1 w1 where q: "lscp_client_query (Some c) ?q w = (ret, pc1, w1)"
    by (cases "lscp_client_query (Some c) ?q w")
  from query_sessid [OF q] obtain c1 where "pc1 = Some c1" "sessid c1 = sessid c"
    by blast
  with assms q Some show ?thesis
    by (auto simp: lscp_get_engine_info_def Let_def split: if_splits option.splits)
qed

lemma channel_info_sessid:
  assumes "lscp_get_channel_info atof (Some c) n w = Inr (r, pc, w')"
  shows "\<exists>c'. pc = Some c' \<and> sessid c' = sessid c"
proof (cases "n < 0")
  case True
  with assms show ?thesis by (auto simp: lscp_get_channel_info_def)
next
  case False
  let ?q = "''GET CHANNEL INFO '' @ show_int n @ CRLF"
  obtain ret pc1 w1 where q: "lscp_client_query (Some c) ?q w = (ret, pc1, w1)"
    by (cases "lscp_client_query (Some c) ?q w")
  from query_sessid [OF q] obtain c1 where "pc1 = Some c1" "sessid c1 = sessid c"
    by blast
  with assms q False show ?thesis
    by (auto simp: lscp_get_channel_info_def Let_def split: if_splits option.splits)
qed

lemma buffer_fill_sessid:
  assumes "lscp_get_channel_buffer_fill (Some c) u n w = Inr (r, pc, w')"
  shows "\<exists>c'. pc = Some c' \<and> sessid c' = sessid c"
proof (cases "n < 0")
  case True
  with assms show ?thesis by (auto simp: lscp_get_channel_buffer_fill_def)
next
  case n: False
  show ?thesis
  proof (cases "resolve_stream_count c n w")
    case (Inl f)
    with assms n show ?thesis by (simp add: lscp_get_channel_buffer_fill_def)
  next
    case (Inr x)
    obtain k pc1 w1 where x: "x = (k, pc1, w1)" by (cases x)
    from resolve_frame [OF Inr [unfolded x]] obtain rs e
      where pc1: "pc1 = Some (c\<lparr>pszResult := rs, iErrno := e\<rparr>)" by blast
    show ?thesis
    proof (cases "k < 1")
      case True
      with assms n Inr x pc1 show ?thesis
        by (auto simp: lscp_get_channel_buffer_fill_def)
    next
      case False
      obtain c2 w2 where re: "buffer_fill_realloc (c\<lparr>pszResult := rs, iErrno := e\<rparr>) k w1 = (c2, w2)"
        by (cases "buffer_fill_realloc (c\<lparr>pszResult := rs, iErrno := e\<rparr>) k w1")
      then have s2: "sessid c2 = sessid c"
        by (auto simp: buffer_fill_realloc_def split: if_splits)
      have "buffer_fill_query c2 u n w2 = Inr (r, pc, w')"
        using assms n Inr x pc1 False re by (simp add: lscp_get_channel_buffer_fill_def)
      from buffer_fill_query_frame [OF this] s2 show ?thesis by auto
    qed
  qed
qed

lemma available_audio_drivers_sessid:
  assumes "lscp_get_available_audio_drivers (Some c) w = Inr (r, pc, w')"
  shows "\<exists>c'. pc = Some c' \<and> sessid c' = sessid c"
proof -
  let ?q = "''GET AVAILABLE_AUDIO_OUTPUT_DRIVERS'' @ CRLF"
  obtain ret pc1 w1 where q: "lscp_client_query (Some c) ?q w = (ret, pc1, w1)"
    by (cases "lscp_client_query (Some c) ?q w")
  from query_sessid [OF q] obtain c1 where "pc1 = Some c1" "sessid c1 = sessid c"
    by blast
  with assms q show ?thesis
    by (auto simp: lscp_get_available_audio_drivers_def Let_def split: if_splits option.splits)
qed

lemma available_midi_drivers_sessid:
  assumes "lscp_get_available_midi_drivers (Some c) w = Inr (r, pc, w')"
  shows "\<exists>c'. pc = Some c' \<and> sessid c' = sessid c"
proof -
  let ?q = "''GET AVAILABLE_MIDI_INPUT_DRIVERS'' @ CRLF"
  obtain ret pc1 w1 where q: "lscp_client_query (Some c) ?q w = (ret, pc1, w1)"
    by (cases "lscp_client_query (Some c) ?q w")
  from query_sessid [OF q] obtain c1 where "pc1 = Some c1" "sessid c1 = sessid c"
    by blast
  with assms q show ?thesis
    by (auto simp: lscp_get_available_midi_drivers_def Let_def split: if_splits option.splits)
qed

lemma available_engines_sessid:
  assumes "lscp_get_available_engines (Some c) w = Inr (r, pc, w')"
  shows "\<exists>c'. pc = Some c' \<and> sessid c' = sessid c"
proof -
  let ?q = "''GET AVAILABLE_ENGINES'' @ CRLF"
  obtain ret pc1 w1 where q: "lscp_client_query (Some c) ?q w = (ret, pc1, w1)"
    by (cases "lscp_client_query (Some c) ?q w")
  from query_sessid [OF q] obtain c1 where "pc1 = Some c1" "sessid c1 = sessid c"
    by blast
  with assms q show ?thesis
    by (auto simp: lscp_get_available_engines_def Let_def split: if_splits option.splits)
qed

lemma listener_sessid:
  assumes "sessid c = Some sid" and "udp_proc_step cb c ev w = Inr (c', w')"
  shows "sessid c' = Some sid"
  using assms
  by (auto simp: udp_proc_step_def Let_def
      split: udp_event.splits if_splits option.splits prod.splits)

lemma unsubscribe_sessid:
  assumes "sessid c = Some sid" and "lscp_client_unsubscribe (Some c) w = Inr (ret, pc, w')"
  shows "\<exists>c'. pc = Some c' \<and>
           (if ret = LSCP_OK then sessid c' = None else sessid c' = Some sid)"
proof -
  let ?q = "''UNSUBSCRIBE NOTIFICATION '' @ sid @ [CHR 0x0A, CHR 0x0A]"
  obtain st pc1 w1 where q: "lscp_client_query (Some c) ?q w = (st, pc1, w1)"
    by (cases "lscp_client_query (Some c) ?q w")
  from query_sessid [OF q] obtain c1 where "pc1 = Some c1" "sessid c1 = sessid c"
    by blast
  with assms q show ?thesis
    by (auto simp: lscp_client_unsubscribe_def split: if_splits)
qed

lemma map_sum_Inr: "map_sum f g x = Inr y \<Longrightarrow> \<exists>z. x = Inr z \<and> y = g z"
  by (cases x) auto

text \<open>
  Once a session-id is bound, every operation on the live session that returns leaves it
  as it is, except an unsubscribe that returns \<open>LSCP_OK\<close>, which clears it. The
  operations are the queries, the typed queries and the list queries, setting the
  timeout, subscribe, unsubscribe and an iteration of the listener on any datagram (a
  keepalive with another id among them). A subscribe on the bound session fails without
  a transaction.
\<close>

theorem bound_session_id_stays:
  assumes bound: "sessid c = Some sid"
    and run: "run_op atof cb op c w = Inr (ret, pc, w')"
  shows "(\<exists>c'. pc = Some c' \<and>
            (if op = Unsubscribe \<and> ret = Some LSCP_OK then sessid c' = None
             else sessid c' = Some sid)) \<and>
         lscp_client_subscribe (Some c) w = Inr (LSCP_FAILED, Some c, w)"
proof
  show "lscp_client_subscribe (Some c) w = Inr (LSCP_FAILED, Some c, w)"
    using bound by (simp add: lscp_client_subscribe_def)
  show "\<exists>c'. pc = Some c' \<and>
            (if op = Unsubscribe \<and> ret = Some LSCP_OK then sessid c' = None
             else sessid c' = Some sid)"
  proof (cases op)
    case (Query line)
    obtain r pc0 w0 where q: "lscp_client_query (Some c) line w = (r, pc0, w0)"
      by (cases "lscp_client_query (Some c) line w")
    with run Query have "pc = pc0" by (simp add: run_op_def)
    with query_sessid [OF q] bound Query show ?thesis by auto
  next
    case (Set_timeout t)
    with run bound show ?thesis
      by (auto simp: run_op_def lscp_client_set_timeout_def split: if_splits)
  next
    case Subscribe
    with run bound show ?thesis
      by (auto simp: run_op_def lscp_client_subscribe_def)
  next
    case Unsubscribe
    with run obtain z where z: "lscp_client_unsubscribe (Some c) w = Inr z"
      and r: "(ret, pc, w') = (\<lambda>(ret, pc, w1). (Some ret, pc, w1)) z"
      by (auto simp: run_op_def dest: map_sum_Inr)
    obtain st pc0 w0 where z': "z = (st, pc0, w0)" by (cases z)
    from unsubscribe_sessid [OF bound z [unfolded z']] r z' Unsubscribe show ?thesis
      by auto
  next
    case Available_audio_drivers
    with run obtain z where z: "lscp_get_available_audio_drivers (Some c) w = Inr z"
      and r: "(ret, pc, w') = (\<lambda>(r, pc, w1). (None, pc, w1)) z"
      by (auto simp: run_op_def dest: map_sum_Inr)
    obtain st pc0 w0 where z': "z = (st, pc0, w0)" by (cases z)
    from available_audio_drivers_sessid [OF z [unfolded z']] r z' bound Available_audio_drivers
    show ?thesis
      by auto
  next
    case Available_midi_drivers
    with run obtain z where z: "lscp_get_available_midi_drivers (Some c) w = Inr z"
      and r: "(ret, pc, w') = (\<lambda>(r, pc, w1). (None, pc, w1)) z"
      by (auto simp: run_op_def dest: map_sum_Inr)
    obtain st pc0 w0 where z': "z = (st, pc0, w0)" by (cases z)
    from available_midi_drivers_sessid [OF z [unfolded z']] r z' bound Available_midi_drivers
    show ?thesis
      by auto
  next
    case Available_engines
    with run obtain z where z: "lscp_get_available_engines (Some c) w = Inr z"
      and r: "(ret, pc, w') = (\<lambda>(r, pc, w1). (None, pc, w1)) z"
      by (auto simp: run_op_def dest: map_sum_Inr)
    obtain st pc0 w0 where z': "z = (st, pc0, w0)" by (cases z)
    from available_engines_sessid [OF z [unfolded z']] r z' bound Available_engines
    show ?thesis
      by auto
  next
    case (Audio_driver_info name)
    with run obtain z where z: "lscp_get_audio_driver_info (Some c) name w = Inr z"
      and r: "(ret, pc, w') = (\<lambda>(r, pc, w1). (None, pc, w1)) z"
      by (auto simp: run_op_def dest: map_sum_Inr)
    obtain st pc0 w0 where z': "z = (st, pc0, w0)" by (cases z)
    have "\<exists>c'. pc0 = Some c' \<and> sessid c' = sessid c"
    proof (cases name)
      case None
      with z z' show ?thesis by (auto simp: lscp_get_audio_driver_info_def)
    next
      case (Some drv)
      with z z' show ?thesis
        by (auto simp: lscp_get_audio_driver_info_def dest: driver_info_query_sessid)
    qed
    with r z' bound Audio_driver_info show ?thesis by auto
  next
    case (Midi_driver_info name)
    with run obtain z where z: "lscp_get_midi_driver_info (Some c) name w = Inr z"
      and r: "(ret, pc, w') = (\<lambda>(r, pc, w1). (None, pc, w1)) z"
      by (auto simp: run_op_def dest: map_sum_Inr)
    obtain st pc0 w0 where z': "z = (st, pc0, w0)" by (cases z)
    have "\<exists>c'. pc0 = Some c' \<and> sessid c' = sessid c"
    proof (cases name)
      case None
      with z z' show ?thesis by (auto simp: lscp_get_midi_driver_info_def)
    next
      case (Some drv)
      with z z' show ?thesis
        by (auto simp: lscp_get_midi_driver_info_def dest: driver_info_query_sessid)
    qed
    with r z' bound Midi_driver_info show ?thesis by auto
  next
    case (Engine_info name)
    with run obtain z where z: "lscp_get_engine_info (Some c) name w = Inr z"
      and r: "(ret, pc, w') = (\<lambda>(r, pc, w1). (None, pc, w1)) z"
      by (auto simp: run_op_def dest: map_sum_Inr)
    obtain st pc0 w0 where z': "z = (st, pc0, w0)" by (cases z)
    from engine_info_sessid [OF z [unfolded z']] r z' bound Engine_info show ?thesis
      by auto
  next
    case (Channel_info n)
    with run obtain z where z: "lscp_get_channel_info atof (Some c) n w = Inr z"
      and r: "(ret, pc, w') = (\<lambda>(r, pc, w1). (None, pc, w1)) z"
      by (auto simp: run_op_def dest: map_sum_Inr)
    obtain st pc0 w0 where z': "z = (st, pc0, w0)" by (cases z)
    from channel_info_sessid [OF z [unfolded z']] r z' bound Channel_info show ?thesis
      by auto
  next
    case (Stream_count n)
    with run obtain z where z: "lscp_get_channel_stream_count (Some c) n w = Inr z"
      and r: "(ret, pc, w') = (\<lambda>(r, pc, w1). (None, pc, w1)) z"
      by (auto simp: run_op_def dest: map_sum_Inr)
    obtain st pc0 w0 where z': "z = (st, pc0, w0)" by (cases z)
    from stream_count_frame [OF z [unfolded z']] r z' bound Stream_count show ?thesis
      by auto
  next
    case (Buffer_fill u n)
    with run obtain z where z: "lscp_get_channel_buffer_fill (Some c) u n w = Inr z"
      and r: "(ret, pc, w') = (\<lambda>(r, pc, w1). (None, pc, w1)) z"
      by (auto simp: run_op_def dest: map_sum_Inr)
    obtain st pc0 w0 where z': "z = (st, pc0, w0)" by (cases z)
    from buffer_fill_sessid [OF z [unfolded z']] r z' bound Buffer_fill show ?thesis
      by auto
  next
    case (Listener ev)
    with run obtain z where z: "udp_proc_step cb c ev w = Inr z"
      and r: "(ret, pc, w') = (\<lambda>(c1, w1). (None, Some c1, w1)) z"
      by (auto simp: run_op_def dest: map_sum_Inr)
    obtain c1 w1 where z': "z = (c1, w1)" by (cases z)
    from listener_sessid [OF bound z [unfolded z']] r z' Listener show ?thesis
      by auto
  qed
qed

text \<open>
  On the bound session: an unsubscribe that the server answers with \<open>OK\<close>, an
  unsubscribe that it does not answer, and a keepalive with another id.
\<close>

theorem bound_session_id_stays_witness:
  "sessid ex_bound_client = Some ''abc123'' \<and>
   run_op ex_atof ex_callback Unsubscribe ex_bound_client (ex_world [Recv (Some (''OK'' @ CRLF))]) =
     Inr (Some LSCP_OK,
          Some (ex_bound_client\<lparr>sessid := None, pszResult := Some ''OK'', iErrno := 0\<rparr>),
          (ex_world [])\<lparr>tcp_sent :=
             [''UNSUBSCRIBE NOTIFICATION abc123'' @ [CHR 0x0A, CHR 0x0A]]\<rparr>) \<and>
   sessid (ex_bound_client\<lparr>sessid := None, pszResult := Some ''OK'', iErrno := 0\<rparr>) = None \<and>
   run_op ex_atof ex_callback Unsubscribe ex_bound_client (ex_world []) =
     Inr (Some LSCP_TIMEOUT,
          Some (ex_bound_client\<lparr>pszResult := Some ''Timeout during receive operation'',
                                 iErrno := - 1\<rparr>),
          (ex_world [])\<lparr>tcp_sent :=
             [''UNSUBSCRIBE NOTIFICATION abc123'' @ [CHR 0x0A, CHR 0x0A]]\<rparr>) \<and>
   sessid (ex_bound_client\<lparr>pszResult := Some ''Timeout during receive operation'',
                             iErrno := - 1\<rparr>) = Some ''abc123'' \<and>
   run_op ex_atof ex_callback (Listener (Udp_datagram ''PING 5000 zzz'' [] 7)) ex_bound_client
       (ex_world []) =
     Inr (None, Some ex_bound_client, ex_world []) \<and>
   lscp_client_subscribe (Some ex_bound_client) (ex_world []) =
     Inr (LSCP_FAILED, Some ex_bound_client, ex_world [])"
proof -
  have h: "sessid ex_bound_client = Some ''abc123''"
    by (simp add: ex_bound_client_def)
  have r1: "run_op ex_atof ex_callback Unsubscribe ex_bound_client
       (ex_world [Recv (Some (''OK'' @ CRLF))]) =
     Inr (Some LSCP_OK,
          Some (ex_bound_client\<lparr>sessid := None, pszResult := Some ''OK'', iErrno := 0\<rparr>),
          (ex_world [])\<lparr>tcp_sent :=
             [''UNSUBSCRIBE NOTIFICATION abc123'' @ [CHR 0x0A, CHR 0x0A]]\<rparr>)"
    by (simp add: run_op_def lscp_client_unsubscribe_def lscp_client_query_def
        lscp_client_call_def lscp_client_set_result_def ex_bound_client_def ex_world_def
        c_string_defs)
  have r2: "run_op ex_atof ex_callback Unsubscribe ex_bound_client (ex_world []) =
     Inr (Some LSCP_TIMEOUT,
          Some (ex_bound_client\<lparr>pszResult := Some ''Timeout during receive operation'',
                                 iErrno := - 1\<rparr>),
          (ex_world [])\<lparr>tcp_sent :=
             [''UNSUBSCRIBE NOTIFICATION abc123'' @ [CHR 0x0A, CHR 0x0A]]\<rparr>)"
    by (simp add: run_op_def lscp_client_unsubscribe_def lscp_client_query_def
        lscp_client_call_def lscp_client_set_result_def ex_bound_client_def ex_world_def
        ltrim_timeout)
  have r3: "run_op ex_atof ex_callback (Listener (Udp_datagram ''PING 5000 zzz'' [] 7))
       ex_bound_client (ex_world []) =
     Inr (None, Some ex_bound_client, ex_world [])"
    by (simp add: run_op_def udp_proc_step_def ex_bound_client_def c_string_defs)
  have c1: "sessid (ex_bound_client\<lparr>sessid := None, pszResult := Some ''OK'', iErrno := 0\<rparr>) =
      None"
    using bound_session_id_stays [OF h r1] by simp
  have c2: "sessid (ex_bound_client\<lparr>pszResult := Some ''Timeout during receive operation'',
                             iErrno := - 1\<rparr>) = Some ''abc123''"
    using bound_session_id_stays [OF h r2] by simp
  have c3: "lscp_client_subscribe (Some ex_bound_client) (ex_world []) =
     Inr (LSCP_FAILED, Some ex_bound_client, ex_world [])"
    using bound_session_id_stays [OF h r3] by simp
  from h r1 c1 r2 c2 r3 c3 show ?thesis
    by (intro conjI)
qed

lemma show_nat_5000: "show_nat 5000 = ''5000''"
  by (simp add: show_nat.simps)

text \<open>
  C6. A successful subscribe that carries a bracketed id binds no id.
  \<open>lscp_client_subscribe\<close> looks for \<open>OK[<id>]\<close> in the stored result text, from which
  \<open>lscp_client_query\<close> has already taken the \<open>OK[\<close> and \<open>]\<close> away: after the response
  \<open>OK[abc123]\<close> the result text is \<open>abc123\<close>, its first token is not \<open>OK\<close>, and the
  session-id stays NULL though the function returns \<open>LSCP_OK\<close>. A second subscribe then
  does not fail: it sends the request again.
\<close>

theorem subscribe_binds_no_id:
  "lscp_client_subscribe (Some ex_client)
       (ex_world [Recv (Some (''OK[abc123]'' @ CRLF)), Recv (Some (''OK[abc123]'' @ CRLF))]) =
     Inr (LSCP_OK, Some (ex_client\<lparr>pszResult := Some ''abc123'', iErrno := 0\<rparr>),
          (ex_world [Recv (Some (''OK[abc123]'' @ CRLF))])
            \<lparr>tcp_sent := [''SUBSCRIBE NOTIFICATION 5000'' @ CRLF]\<rparr>) \<and>
   sessid (ex_client\<lparr>pszResult := Some ''abc123'', iErrno := 0\<rparr>) = None \<and>
   lscp_client_subscribe (Some (ex_client\<lparr>pszResult := Some ''abc123'', iErrno := 0\<rparr>))
       ((ex_world [Recv (Some (''OK[abc123]'' @ CRLF))])
            \<lparr>tcp_sent := [''SUBSCRIBE NOTIFICATION 5000'' @ CRLF]\<rparr>) =
     Inr (LSCP_OK, Some (ex_client\<lparr>pszResult := Some ''abc123'', iErrno := 0\<rparr>),
          (ex_world [])
            \<lparr>tcp_sent := [''SUBSCRIBE NOTIFICATION 5000'' @ CRLF,
                          ''SUBSCRIBE NOTIFICATION 5000'' @ CRLF]\<rparr>)"
  by (simp add: lscp_client_subscribe_def lscp_client_query_def lscp_client_call_def
      lscp_client_set_result_def lscp_client_get_result_def ex_client_def
      lscp_client_create_def ex_world_def show_nat_5000 c_string_defs)

end
